theory Spec2Isabelle
  imports Main
begin

section \<open>The artifact pack analyzer (PYRO\_ARTIFACT\_PACK\_ANALYSIS.py)\<close>

text \<open>
  A shallow embedding of the class \<open>PyroArtifactPackAnalyzer\<close>: the extraction passes
  (\<open>find_github_repositories\<close>, \<open>find_known_tools\<close>, \<open>find_download_urls\<close>,
  \<open>analyze_vql_query\<close>), the per-file and per-pack drivers, and the post-processing
  (\<open>prioritize_fork_candidates\<close>, \<open>enrich_repository_info\<close>). The dictionary
  \<open>self.analysis_results\<close> is a record that every function takes and returns; what the
  program prints is returned beside it as a list of messages.

  Outside the model: the files written by \<open>save_analysis_results\<close>, the run's
  time stamp, and the paths of the output directory. The file system is an input: which
  of the two packs exist, whether extraction succeeds, and for every extracted file its
  stem, its text and what \<open>yaml.safe_load\<close> makes of that text.

  Text is ASCII: a \<open>char\<close> is one character of the document, and the character
  classes and the case folding below are those of Python's \<open>re\<close> and \<open>str.lower\<close>
  on the ASCII range.
\<close>

subsection \<open>Characters\<close>

definition isupper :: "char \<Rightarrow> bool" where
  "isupper c = (c \<in> set ''ABCDEFGHIJKLMNOPQRSTUVWXYZ'')"

definition islower :: "char \<Rightarrow> bool" where
  "islower c = (c \<in> set ''abcdefghijklmnopqrstuvwxyz'')"

definition isdigit :: "char \<Rightarrow> bool" where
  "isdigit c = (c \<in> set ''0123456789'')"

text \<open>\<open>str.lower\<close> on one character.\<close>

definition tolower :: "char \<Rightarrow> char" where
  "tolower c =
     (case map_of (zip ''ABCDEFGHIJKLMNOPQRSTUVWXYZ'' ''abcdefghijklmnopqrstuvwxyz'') c of
        Some l \<Rightarrow> l
      | None \<Rightarrow> c)"

definition lower :: "string \<Rightarrow> string" where
  "lower s = map tolower s"

text \<open>The class \<open>\w\<close>: letters, digits and the underscore.\<close>

definition isword :: "char \<Rightarrow> bool" where
  "isword c = (islower c \<or> isupper c \<or> isdigit c \<or> c = CHR ''_'')"

text \<open>The class \<open>\s\<close>: tab, line feed, vertical tab, form feed, carriage return, the
  four separators 0x1C to 0x1F, and the space.\<close>

definition isspace :: "char \<Rightarrow> bool" where
  "isspace c = (c \<in> set [CHR 0x09, CHR 0x0A, CHR 0x0B, CHR 0x0C, CHR 0x0D,
                          CHR 0x1C, CHR 0x1D, CHR 0x1E, CHR 0x1F, CHR 0x20])"

definition backslash :: char where
  "backslash = CHR 0x5C"

subsection \<open>Regular expressions\<close>

text \<open>
  The patterns of the program use literals, the classes \<open>.\<close>, \<open>\w\<close>, \<open>\s\<close> and
  negated sets, the quantifiers \<open>?\<close>, \<open>*\<close> and \<open>+\<close> on a single character class,
  the word boundary \<open>\b\<close> and unnested groups. A pattern is the list of its items.
\<close>

datatype cls = Lit char | Dot | Word | Space | NoneOf "cls list"

datatype item = One cls | Opt cls | Star cls | Plus cls | WordB | GOpen | GClose

type_synonym regex = "item list"

text \<open>The first argument is the flag \<open>re.IGNORECASE\<close>.\<close>

fun cls_match :: "bool \<Rightarrow> cls \<Rightarrow> char \<Rightarrow> bool" where
  "cls_match ic (Lit a) x = (if ic then tolower a = tolower x else a = x)"
| "cls_match ic Dot x = (x \<noteq> CHR 0x0A)"
| "cls_match ic Word x = isword x"
| "cls_match ic Space x = isspace x"
| "cls_match ic (NoneOf cs) x = (\<not> list_ex (\<lambda>c. cls_match ic c x) cs)"

text \<open>\<open>\b\<close> holds between a word character and a non-word character (or an end of
  the text); \<open>prev\<close> is the character before the current position.\<close>

definition at_boundary :: "char option \<Rightarrow> string \<Rightarrow> bool" where
  "at_boundary prev s =
     ((case prev of None \<Rightarrow> False | Some p \<Rightarrow> isword p) \<noteq>
      (case s of [] \<Rightarrow> False | x # _ \<Rightarrow> isword x))"

text \<open>
  The backtracking matcher, anchored at the current position. Quantifiers are greedy:
  the longer alternative is tried first and the shorter one only when the rest of the
  pattern fails. \<open>n\<close> counts the characters consumed, \<open>opens\<close> holds the start of the
  groups that are open, \<open>caps\<close> the spans of the closed ones, latest first. The result is
  the length of the match and the spans of the groups in the order of the pattern.
\<close>

fun match_items ::
  "bool \<Rightarrow> regex \<Rightarrow> char option \<Rightarrow> nat \<Rightarrow> nat list \<Rightarrow> (nat \<times> nat) list \<Rightarrow> string
     \<Rightarrow> (nat \<times> (nat \<times> nat) list) option" where
  "match_items ic [] prev n opens caps s = Some (n, rev caps)"
| "match_items ic (One c # r) prev n opens caps [] = None"
| "match_items ic (One c # r) prev n opens caps (x # xs) =
     (if cls_match ic c x then match_items ic r (Some x) (Suc n) opens caps xs else None)"
| "match_items ic (Opt c # r) prev n opens caps [] = match_items ic r prev n opens caps []"
| "match_items ic (Opt c # r) prev n opens caps (x # xs) =
     (if cls_match ic c x then
        (case match_items ic r (Some x) (Suc n) opens caps xs of
           Some m \<Rightarrow> Some m
         | None \<Rightarrow> match_items ic r prev n opens caps (x # xs))
      else match_items ic r prev n opens caps (x # xs))"
| "match_items ic (Star c # r) prev n opens caps [] = match_items ic r prev n opens caps []"
| "match_items ic (Star c # r) prev n opens caps (x # xs) =
     (if cls_match ic c x then
        (case match_items ic (Star c # r) (Some x) (Suc n) opens caps xs of
           Some m \<Rightarrow> Some m
         | None \<Rightarrow> match_items ic r prev n opens caps (x # xs))
      else match_items ic r prev n opens caps (x # xs))"
| "match_items ic (Plus c # r) prev n opens caps [] = None"
| "match_items ic (Plus c # r) prev n opens caps (x # xs) =
     (if cls_match ic c x then match_items ic (Star c # r) (Some x) (Suc n) opens caps xs
      else None)"
| "match_items ic (WordB # r) prev n opens caps s =
     (if at_boundary prev s then match_items ic r prev n opens caps s else None)"
| "match_items ic (GOpen # r) prev n opens caps s = match_items ic r prev n (n # opens) caps s"
| "match_items ic (GClose # r) prev n opens caps s =
     (case opens of
        [] \<Rightarrow> None
      | b # os \<Rightarrow> match_items ic r prev n os ((b, n) # caps) s)"

text \<open>A match object: \<open>group(0)\<close> and the tuple \<open>groups()\<close>.\<close>

record rmatch =
  group0 :: string
  groups :: "string list"

definition match_at :: "bool \<Rightarrow> regex \<Rightarrow> char option \<Rightarrow> string \<Rightarrow> (nat \<times> rmatch) option" where
  "match_at ic r prev s =
     (case match_items ic r prev 0 [] [] s of
        None \<Rightarrow> None
      | Some (n, caps) \<Rightarrow>
          Some (n, \<lparr>group0 = take n s,
                    groups = map (\<lambda>(b, e). take (e - b) (drop b s)) caps\<rparr>))"

text \<open>\<open>re.search\<close>: the match at the leftmost position that has one.\<close>

fun search_from :: "bool \<Rightarrow> regex \<Rightarrow> char option \<Rightarrow> string \<Rightarrow> rmatch option" where
  "search_from ic r prev [] = map_option snd (match_at ic r prev [])"
| "search_from ic r prev (x # xs) =
     (case match_at ic r prev (x # xs) of
        Some (n, m) \<Rightarrow> Some m
      | None \<Rightarrow> search_from ic r (Some x) xs)"

definition re_search :: "bool \<Rightarrow> regex \<Rightarrow> string \<Rightarrow> rmatch option" where
  "re_search ic r s = search_from ic r None s"

text \<open>
  \<open>re.finditer\<close>: the matches from left to right, without overlap. After a match of
  length \<open>n\<close> the scan resumes behind it: \<open>k\<close> is the number of characters still to
  skip. (No pattern of the program matches the empty string; after an empty match the
  scan moves on by one character.)
\<close>

fun finditer_from :: "bool \<Rightarrow> regex \<Rightarrow> char option \<Rightarrow> nat \<Rightarrow> string \<Rightarrow> rmatch list" where
  "finditer_from ic r prev k [] =
     (if k = 0 then (case match_at ic r prev [] of None \<Rightarrow> [] | Some (n, m) \<Rightarrow> [m]) else [])"
| "finditer_from ic r prev (Suc k) (x # xs) = finditer_from ic r (Some x) k xs"
| "finditer_from ic r prev 0 (x # xs) =
     (case match_at ic r prev (x # xs) of
        None \<Rightarrow> finditer_from ic r (Some x) 0 xs
      | Some (n, m) \<Rightarrow> m # finditer_from ic r (Some x) (n - 1) xs)"

definition re_finditer :: "bool \<Rightarrow> regex \<Rightarrow> string \<Rightarrow> rmatch list" where
  "re_finditer ic r s = finditer_from ic r None 0 s"

text \<open>The source text of a pattern, as the program stores it in \<open>patterns_matched\<close>.\<close>

definition special :: "char \<Rightarrow> bool" where
  "special c = (c \<in> set ''.^$*+?{}[]|()'' \<or> c = backslash)"

fun cls_text :: "cls \<Rightarrow> string" where
  "cls_text (Lit c) = (if special c then [backslash, c] else [c])"
| "cls_text Dot = ''.''"
| "cls_text Word = [backslash, CHR ''w'']"
| "cls_text Space = [backslash, CHR ''s'']"
| "cls_text (NoneOf cs) = ''[^'' @ concat (map cls_text cs) @ '']''"

fun item_text :: "item \<Rightarrow> string" where
  "item_text (One c) = cls_text c"
| "item_text (Opt c) = cls_text c @ ''?''"
| "item_text (Star c) = cls_text c @ ''*''"
| "item_text (Plus c) = cls_text c @ ''+''"
| "item_text WordB = [backslash, CHR ''b'']"
| "item_text GOpen = ''(''"
| "item_text GClose = '')''"

definition pattern_text :: "regex \<Rightarrow> string" where
  "pattern_text r = concat (map item_text r)"

definition lit :: "string \<Rightarrow> regex" where
  "lit s = map (\<lambda>c. One (Lit c)) s"

subsection \<open>String operations\<close>

text \<open>\<open>sub in s\<close> on strings.\<close>

fun starts_with :: "string \<Rightarrow> string \<Rightarrow> bool" where
  "starts_with [] s = True"
| "starts_with (p # ps) [] = False"
| "starts_with (p # ps) (x # xs) = (p = x \<and> starts_with ps xs)"

fun contains :: "string \<Rightarrow> string \<Rightarrow> bool" where
  "contains sub [] = (sub = [])"
| "contains sub (x # xs) = (starts_with sub (x # xs) \<or> contains sub xs)"

text \<open>\<open>s.split(c)[0]\<close> and \<open>s.rstrip(chars)\<close>.\<close>

definition split_first :: "char \<Rightarrow> string \<Rightarrow> string" where
  "split_first c s = takeWhile (\<lambda>x. x \<noteq> c) s"

definition rstrip :: "string \<Rightarrow> string \<Rightarrow> string" where
  "rstrip chars s = rev (dropWhile (\<lambda>x. x \<in> set chars) (rev s))"

subsection \<open>Structured documents\<close>

text \<open>
  What \<open>yaml.safe_load\<close> returns: null, numbers (a boolean is the number 0 or 1, as
  Python compares them), strings, sequences and mappings with string keys. Floats and
  time stamps are not represented. Two mappings are equal here when they have the same
  entries in the same order; Python compares dictionaries without regard to the order.
\<close>

datatype yaml = YNull | YNum int | YStr string | YList "yaml list" | YMap "(string \<times> yaml) list"

datatype error = OSError | TypeError | ValueError | KeyError

text \<open>The truth value of an object in a condition.\<close>

fun truthy :: "yaml \<Rightarrow> bool" where
  "truthy YNull = False"
| "truthy (YNum n) = (n \<noteq> 0)"
| "truthy (YStr s) = (s \<noteq> [])"
| "truthy (YList xs) = (xs \<noteq> [])"
| "truthy (YMap kvs) = (kvs \<noteq> [])"

text \<open>\<open>key in obj\<close>, \<open>obj[key]\<close> and \<open>for x in obj\<close> for a string \<open>key\<close>.\<close>

fun py_contains :: "string \<Rightarrow> yaml \<Rightarrow> error + bool" where
  "py_contains key (YMap kvs) = Inr (key \<in> set (map fst kvs))"
| "py_contains key (YList xs) = Inr (YStr key \<in> set xs)"
| "py_contains key (YStr s) = Inr (contains key s)"
| "py_contains key YNull = Inl TypeError"
| "py_contains key (YNum n) = Inl TypeError"

fun py_getitem :: "string \<Rightarrow> yaml \<Rightarrow> error + yaml" where
  "py_getitem key (YMap kvs) = (case map_of kvs key of Some v \<Rightarrow> Inr v | None \<Rightarrow> Inl KeyError)"
| "py_getitem key (YList xs) = Inl TypeError"
| "py_getitem key (YStr s) = Inl TypeError"
| "py_getitem key YNull = Inl TypeError"
| "py_getitem key (YNum n) = Inl TypeError"

fun py_iter :: "yaml \<Rightarrow> error + yaml list" where
  "py_iter (YList xs) = Inr xs"
| "py_iter (YMap kvs) = Inr (map (\<lambda>kv. YStr (fst kv)) kvs)"
| "py_iter (YStr s) = Inr (map (\<lambda>c. YStr [c]) s)"
| "py_iter YNull = Inl TypeError"
| "py_iter (YNum n) = Inl TypeError"

text \<open>
  An extracted file: its stem, its text (\<open>None\<close> when opening or reading it raises) and
  the result of \<open>yaml.safe_load\<close> on that text (\<open>None\<close> when the parser raises).
\<close>

record artifact_file =
  stem :: string
  content :: "string option"
  parsed :: "yaml option"

text \<open>A pack on disk: its size and the \<open>.yaml\<close> and \<open>.yml\<close> files found after
  extraction (\<open>None\<close> when \<open>extractall\<close> raises).\<close>

record pack_file =
  size_on_disk :: nat
  extraction :: "artifact_file list option"

subsection \<open>The analysis results\<close>

datatype category = high_priority | medium_priority | low_priority

text \<open>
  The records are the dictionaries of the program; a key that a dictionary may lack
  (\<open>tool_name\<close>, \<open>priority_score\<close>, ...) is an option. The sets of the program are sets;
  \<open>post_process_analysis\<close> turns them into lists in no specified order, which the model
  leaves as sets.
\<close>

record repo_info =
  organization :: string
  repository_name :: string
  repository_url :: string
  referenced_in_artifacts :: "yaml list"
  referenced_in_packs :: "string set"
  full_urls_found :: "string set"
  priority :: string
  language :: string
  stars :: nat
  license :: string
  tool_name :: "string option"
  priority_score :: "int option"
  priority_category :: "category option"
  estimated_importance :: "nat option"
  fork_recommended :: "bool option"

record tool_data =
  tool_key :: string
  tool_repository_url :: string
  tool_priority :: string
  tool_language :: string
  tool_description :: string
  tool_referenced_in_artifacts :: "yaml list"
  tool_referenced_in_packs :: "string set"
  patterns_matched :: "string set"

record dep_info =
  domain :: string
  urls_found :: "string set"
  dep_referenced_in_artifacts :: "yaml list"
  dep_referenced_in_packs :: "string set"

record pack_info =
  file_name :: string
  file_size :: nat
  artifacts_count :: nat

text \<open>
  The three registries are dictionaries in insertion order: association lists with one
  entry per key. The lists of \<open>fork_candidates\<close> hold the repository dictionaries
  themselves, shared with \<open>repositories_found\<close>; the model holds their keys, and a
  bucket entry is read through the registry.
\<close>

record analysis_results =
  artifact_packs_analyzed :: "pack_info list"
  total_artifacts :: nat
  repositories_found :: "(string \<times> repo_info) list"
  tools_found :: "(string \<times> tool_data) list"
  dependencies_found :: "(string \<times> dep_info) list"
  organizations_found :: "string set"
  fork_candidates :: "category \<Rightarrow> string list"

definition initial_results :: analysis_results where
  "initial_results =
     \<lparr>artifact_packs_analyzed = [], total_artifacts = 0, repositories_found = [],
      tools_found = [], dependencies_found = [], organizations_found = {},
      fork_candidates = (\<lambda>c. [])\<rparr>"

text \<open>What the program prints, without the decoration.\<close>

datatype message =
    Starting
  | Found string
  | Missing string
  | NoPacksFound
  | Analyzing string
  | Extracted string
  | FailedToExtract string
  | FoundArtifactFiles nat
  | ErrorAnalyzing string error
  | PostProcessing
  | Prioritizing
  | Enriching

subsection \<open>Dictionary and list idioms\<close>

text \<open>\<open>if k not in d: d[k] = v\<close>, and an update in place of the value under \<open>k\<close>.\<close>

definition dict_setdefault :: "string \<Rightarrow> 'v \<Rightarrow> (string \<times> 'v) list \<Rightarrow> (string \<times> 'v) list" where
  "dict_setdefault k v d = (if k \<in> set (map fst d) then d else d @ [(k, v)])"

definition dict_modify :: "string \<Rightarrow> ('v \<Rightarrow> 'v) \<Rightarrow> (string \<times> 'v) list \<Rightarrow> (string \<times> 'v) list" where
  "dict_modify k f d = map (\<lambda>kv. if fst kv = k then (fst kv, f (snd kv)) else kv) d"

text \<open>\<open>if x not in xs: xs.append(x)\<close>.\<close>

definition append_unique :: "'a \<Rightarrow> 'a list \<Rightarrow> 'a list" where
  "append_unique x xs = (if x \<in> set xs then xs else xs @ [x])"

text \<open>A loop whose body may raise: the first exception ends it, and the state keeps
  what was done before.\<close>

fun for_each :: "('a \<Rightarrow> 's \<Rightarrow> (error \<times> 's) + 's) \<Rightarrow> 'a list \<Rightarrow> 's \<Rightarrow> (error \<times> 's) + 's" where
  "for_each body [] st = Inr st"
| "for_each body (x # xs) st =
     (case body x st of Inl e \<Rightarrow> Inl e | Inr st' \<Rightarrow> for_each body xs st')"

subsection \<open>The tables of the analyzer\<close>

text \<open>
  An entry of \<open>self.known_tools\<close>. In a pattern, \<open>lit\<close> is a run of literal
  characters (a dot in it is the escaped dot of the source), \<open>WordB\<close> is \<open>\b\<close> and
  \<open>Star Dot\<close> is \<open>.*\<close>.
\<close>

record tool_info =
  repo_url :: string
  patterns :: "regex list"
  cat_priority :: string
  cat_language :: string
  description :: string

definition known_tools :: "(string \<times> tool_info) list" where
  "known_tools =
     [(''hayabusa'',
        \<lparr>repo_url = ''https://github.com/Yamato-Security/hayabusa'',
         patterns = [lit ''hayabusa'', lit ''Hayabusa''],
         cat_priority = ''critical'', cat_language = ''rust'',
         description = ''Windows event log fast forensics timeline generator''\<rparr>),
      (''uac'',
        \<lparr>repo_url = ''https://github.com/tclahr/uac'',
         patterns = [[WordB] @ lit ''uac'' @ [WordB],
                     lit ''UAC'',
                     lit ''unix'' @ [Star Dot] @ lit ''artifacts'' @ [Star Dot] @ lit ''collector''],
         cat_priority = ''high'', cat_language = ''shell'',
         description = ''Unix-like Artifacts Collector''\<rparr>),
      (''chainsaw'',
        \<lparr>repo_url = ''https://github.com/countercept/chainsaw'',
         patterns = [lit ''chainsaw'', lit ''Chainsaw''],
         cat_priority = ''high'', cat_language = ''rust'',
         description = ''Rapidly Search and Hunt through Windows Event Logs''\<rparr>),
      (''sigma'',
        \<lparr>repo_url = ''https://github.com/SigmaHQ/sigma'',
         patterns = [lit ''sigma'',
                     lit ''Sigma'',
                     lit ''sigma'' @ [Star Dot] @ lit ''rule''],
         cat_priority = ''critical'', cat_language = ''python'',
         description = ''Generic Signature Format for SIEM Systems''\<rparr>),
      (''yara'',
        \<lparr>repo_url = ''https://github.com/VirusTotal/yara'',
         patterns = [lit ''yara'',
                     lit ''YARA'',
                     lit ''.yar'' @ [WordB],
                     lit ''.yara'' @ [WordB]],
         cat_priority = ''critical'', cat_language = ''c'',
         description = ''Pattern matching engine for malware research''\<rparr>),
      (''volatility'',
        \<lparr>repo_url = ''https://github.com/volatilityfoundation/volatility3'',
         patterns = [lit ''volatility'',
                     lit ''Volatility'',
                     lit ''vol.py''],
         cat_priority = ''critical'', cat_language = ''python'',
         description = ''Advanced memory forensics framework''\<rparr>),
      (''plaso'',
        \<lparr>repo_url = ''https://github.com/log2timeline/plaso'',
         patterns = [lit ''plaso'',
                     lit ''Plaso'',
                     lit ''log2timeline''],
         cat_priority = ''high'', cat_language = ''python'',
         description = ''Super timeline all the things''\<rparr>),
      (''autopsy'',
        \<lparr>repo_url = ''https://github.com/sleuthkit/autopsy'',
         patterns = [lit ''autopsy'', lit ''Autopsy''],
         cat_priority = ''high'', cat_language = ''java'',
         description = ''Digital forensics platform''\<rparr>),
      (''sleuthkit'',
        \<lparr>repo_url = ''https://github.com/sleuthkit/sleuthkit'',
         patterns = [lit ''sleuthkit'',
                     lit ''SleuthKit'',
                     lit ''tsk_''],
         cat_priority = ''high'', cat_language = ''c'',
         description = ''Library and collection of command line tools''\<rparr>),
      (''capa'',
        \<lparr>repo_url = ''https://github.com/mandiant/capa'',
         patterns = [[WordB] @ lit ''capa'' @ [WordB], lit ''CAPA''],
         cat_priority = ''high'', cat_language = ''python'',
         description = ''Automatically identify capabilities in executable files''\<rparr>),
      (''osquery'',
        \<lparr>repo_url = ''https://github.com/osquery/osquery'',
         patterns = [lit ''osquery'', lit ''OSQuery''],
         cat_priority = ''high'', cat_language = ''cpp'',
         description = ''SQL powered operating system instrumentation framework''\<rparr>),
      (''regripper'',
        \<lparr>repo_url = ''https://github.com/keydet89/RegRipper3.0'',
         patterns = [lit ''regripper'',
                     lit ''RegRipper'',
                     lit ''rip.pl''],
         cat_priority = ''medium'', cat_language = ''perl'',
         description = ''Windows Registry data extraction tool''\<rparr>),
      (''evtx'',
        \<lparr>repo_url = ''https://github.com/omerbenamram/evtx'',
         patterns = [lit ''evtx'',
                     lit ''EVTX'',
                     lit ''.evtx''],
         cat_priority = ''high'', cat_language = ''rust'',
         description = ''Windows XML Event Log parser''\<rparr>),
      (''loki'',
        \<lparr>repo_url = ''https://github.com/Neo23x0/Loki'',
         patterns = [[WordB] @ lit ''loki'' @ [WordB], lit ''Loki''],
         cat_priority = ''medium'', cat_language = ''python'',
         description = ''Simple IOC and YARA Scanner''\<rparr>),
      (''thor'',
        \<lparr>repo_url = ''https://github.com/NextronSystems/thor-lite'',
         patterns = [lit ''thor'', lit ''THOR''],
         cat_priority = ''medium'', cat_language = ''go'',
         description = ''Compromise Assessment Scanner''\<rparr>),
      (''densityscout'',
        \<lparr>repo_url = ''https://github.com/cert-ee/densityscout'',
         patterns = [lit ''densityscout'', lit ''DensityScout''],
         cat_priority = ''low'', cat_language = ''c'',
         description = ''Entropy analysis tool''\<rparr>),
      (''pe-sieve'',
        \<lparr>repo_url = ''https://github.com/hasherezade/pe-sieve'',
         patterns = [lit ''pe-sieve'', lit ''pesieve''],
         cat_priority = ''medium'', cat_language = ''cpp'',
         description = ''Scans a given process for various types of in-memory modifications''\<rparr>),
      (''hollows_hunter'',
        \<lparr>repo_url = ''https://github.com/hasherezade/hollows_hunter'',
         patterns = [lit ''hollows_hunter'', lit ''hollows-hunter''],
         cat_priority = ''medium'', cat_language = ''cpp'',
         description = ''Scans all running processes for various types of in-memory modifications''\<rparr>),
      (''winpmem'',
        \<lparr>repo_url = ''https://github.com/Velocidx/WinPmem'',
         patterns = [lit ''winpmem'', lit ''WinPmem''],
         cat_priority = ''high'', cat_language = ''cpp'',
         description = ''Windows physical memory acquisition tool''\<rparr>),
      (''linpmem'',
        \<lparr>repo_url = ''https://github.com/Velocidx/Linpmem'',
         patterns = [lit ''linpmem'', lit ''Linpmem''],
         cat_priority = ''high'', cat_language = ''cpp'',
         description = ''Linux physical memory acquisition tool''\<rparr>)]"

text \<open>\<open>self.github_patterns\<close>; \<open>[^/\s\)]\<close> is \<open>NoneOf [Lit CHR ''/'', Space, Lit CHR '')'']\<close>.\<close>

definition segment_group :: regex where
  "segment_group = [GOpen, Plus (NoneOf [Lit CHR ''/'']), GClose]"

definition name_group :: regex where
  "name_group = [GOpen, Plus (NoneOf [Lit CHR ''/'', Space, Lit CHR '')'']), GClose]"

definition github_patterns :: "regex list" where
  "github_patterns =
     [lit ''http'' @ [Opt (Lit CHR ''s'')] @ lit ''://github.com/'' @ segment_group @ lit ''/'' @ name_group,
      lit ''github.com/'' @ segment_group @ lit ''/'' @ name_group,
      lit ''raw.githubusercontent.com/'' @ segment_group @ lit ''/'' @ segment_group,
      lit ''api.github.com/repos/'' @ segment_group @ lit ''/'' @ segment_group]"

text \<open>The pattern applied to the repository URL of a catalog entry (line 384).\<close>

definition tool_repo_pattern :: regex where
  "tool_repo_pattern = lit ''github.com/'' @ segment_group @ lit ''/'' @ segment_group"

text \<open>\<open>self.download_patterns\<close>.\<close>

definition http_prefix :: regex where
  "http_prefix = lit ''http'' @ [Opt (Lit CHR ''s'')] @ lit ''://''"

definition download_patterns :: "regex list" where
  "download_patterns =
     [http_prefix @ [Plus (NoneOf [Space])] @ lit ''.exe'',
      http_prefix @ [Plus (NoneOf [Space])] @ lit ''.zip'',
      http_prefix @ [Plus (NoneOf [Space])] @ lit ''.tar.gz'',
      http_prefix @ [Plus (NoneOf [Space])] @ lit ''.deb'',
      http_prefix @ [Plus (NoneOf [Space])] @ lit ''.rpm'',
      http_prefix @ lit ''releases.github.com/'' @ [Plus (NoneOf [Space])]]"

text \<open>\<open>exe_patterns\<close> of \<open>analyze_vql_query\<close>.\<close>

definition exe_patterns :: "regex list" where
  "exe_patterns =
     [[GOpen, Plus Word] @ lit ''.exe'' @ [GClose],
      [GOpen, Plus Word] @ lit ''.dll'' @ [GClose],
      [GOpen, Plus Word] @ lit ''.sys'' @ [GClose],
      lit ''/usr/bin/'' @ [GOpen, Plus Word, GClose],
      lit ''/bin/'' @ [GOpen, Plus Word, GClose],
      lit ''C:'' @ lit [backslash] @ lit ''Windows'' @ lit [backslash] @ lit ''System32''
        @ lit [backslash] @ [GOpen, Plus Word] @ lit ''.exe'' @ [GClose]]"

subsection \<open>The repository pass\<close>

text \<open>\<open>repo.split('?')[0].split('#')[0].rstrip('.,;)')\<close>\<close>

definition clean_repo :: "string \<Rightarrow> string" where
  "clean_repo repo = rstrip ''.,;)'' (split_first CHR ''#'' (split_first CHR ''?'' repo))"

definition make_repo_key :: "string \<Rightarrow> string \<Rightarrow> string" where
  "make_repo_key org repo = org @ ''/'' @ repo"

definition new_repo_info :: "string \<Rightarrow> string \<Rightarrow> repo_info" where
  "new_repo_info org repo =
     \<lparr>organization = org, repository_name = repo,
      repository_url = ''https://github.com/'' @ org @ ''/'' @ repo,
      referenced_in_artifacts = [], referenced_in_packs = {}, full_urls_found = {},
      priority = ''unknown'', language = ''unknown'', stars = 0, license = ''unknown'',
      tool_name = None, priority_score = None, priority_category = None,
      estimated_importance = None, fork_recommended = None\<rparr>"

text \<open>The body of the loop over the matches of one pattern.\<close>

definition github_match :: "yaml \<Rightarrow> string \<Rightarrow> rmatch \<Rightarrow> analysis_results \<Rightarrow> analysis_results" where
  "github_match artifact_name pack_name m st =
     (if 2 \<le> length (groups m) then
        (let org = groups m ! 0;
             repo = clean_repo (groups m ! 1);
             repo_key = make_repo_key org repo;
             repos = dict_setdefault repo_key (new_repo_info org repo) (repositories_found st)
         in st\<lparr>repositories_found :=
                  dict_modify repo_key
                    (\<lambda>ri. ri\<lparr>referenced_in_artifacts :=
                                append_unique artifact_name (referenced_in_artifacts ri),
                              referenced_in_packs := insert pack_name (referenced_in_packs ri),
                              full_urls_found := insert (group0 m) (full_urls_found ri)\<rparr>)
                    repos,
                organizations_found := insert org (organizations_found st)\<rparr>)
      else st)"

definition find_github_repositories ::
  "string \<Rightarrow> yaml \<Rightarrow> string \<Rightarrow> analysis_results \<Rightarrow> analysis_results" where
  "find_github_repositories text artifact_name pack_name st =
     fold (\<lambda>pattern. fold (github_match artifact_name pack_name) (re_finditer True pattern text))
       github_patterns st"

subsection \<open>The known-tool pass\<close>

definition new_tool_data :: "string \<Rightarrow> tool_info \<Rightarrow> tool_data" where
  "new_tool_data name info =
     \<lparr>tool_key = name, tool_repository_url = repo_url info, tool_priority = cat_priority info,
      tool_language = cat_language info, tool_description = description info,
      tool_referenced_in_artifacts = [], tool_referenced_in_packs = {},
      patterns_matched = {}\<rparr>"

text \<open>Creating the tool's record when it is new and adding the reference; \<open>matched\<close> is
  the string added to \<open>patterns_matched\<close> (lines 363 to 380 and 457 to 473).\<close>

definition note_tool ::
  "string \<Rightarrow> tool_info \<Rightarrow> yaml \<Rightarrow> string \<Rightarrow> string \<Rightarrow> analysis_results \<Rightarrow> analysis_results" where
  "note_tool name info artifact_name pack_name matched st =
     st\<lparr>tools_found :=
           dict_modify name
             (\<lambda>td. td\<lparr>tool_referenced_in_artifacts :=
                         append_unique artifact_name (tool_referenced_in_artifacts td),
                       tool_referenced_in_packs := insert pack_name (tool_referenced_in_packs td),
                       patterns_matched := insert matched (patterns_matched td)\<rparr>)
             (dict_setdefault name (new_tool_data name info) (tools_found st))\<rparr>"

definition new_tool_repo_info :: "string \<Rightarrow> tool_info \<Rightarrow> string \<Rightarrow> string \<Rightarrow> repo_info" where
  "new_tool_repo_info name info org repo =
     \<lparr>organization = org, repository_name = repo, repository_url = repo_url info,
      referenced_in_artifacts = [], referenced_in_packs = {}, full_urls_found = {},
      priority = cat_priority info, language = cat_language info, stars = 0,
      license = ''unknown'', tool_name = Some name, priority_score = None,
      priority_category = None, estimated_importance = None, fork_recommended = None\<rparr>"

text \<open>Lines 382 to 409: the repository of a tool whose URL is on GitHub.\<close>

definition note_tool_repo ::
  "string \<Rightarrow> tool_info \<Rightarrow> yaml \<Rightarrow> string \<Rightarrow> analysis_results \<Rightarrow> analysis_results" where
  "note_tool_repo name info artifact_name pack_name st =
     (if contains ''github.com'' (repo_url info) then
        (case re_search False tool_repo_pattern (repo_url info) of
           None \<Rightarrow> st
         | Some repo_match \<Rightarrow>
             (let org = groups repo_match ! 0;
                  repo = groups repo_match ! 1;
                  repo_key = make_repo_key org repo;
                  repos = dict_setdefault repo_key (new_tool_repo_info name info org repo)
                            (repositories_found st)
              in st\<lparr>repositories_found :=
                       dict_modify repo_key
                         (\<lambda>ri. ri\<lparr>referenced_in_artifacts :=
                                     append_unique artifact_name (referenced_in_artifacts ri),
                                   referenced_in_packs := insert pack_name (referenced_in_packs ri),
                                   priority := cat_priority info,
                                   language := cat_language info\<rparr>)
                         repos\<rparr>))
      else st)"

text \<open>The body of the loop over the patterns of one tool.\<close>

definition tool_pattern ::
  "string \<Rightarrow> yaml \<Rightarrow> string \<Rightarrow> string \<Rightarrow> tool_info \<Rightarrow> regex \<Rightarrow> analysis_results \<Rightarrow> analysis_results" where
  "tool_pattern text artifact_name pack_name name info pattern st =
     (if re_search True pattern text \<noteq> None then
        note_tool_repo name info artifact_name pack_name
          (note_tool name info artifact_name pack_name (pattern_text pattern) st)
      else st)"

definition find_known_tools ::
  "string \<Rightarrow> yaml \<Rightarrow> string \<Rightarrow> analysis_results \<Rightarrow> analysis_results" where
  "find_known_tools text artifact_name pack_name st =
     fold (\<lambda>entry. fold (tool_pattern text artifact_name pack_name (fst entry) (snd entry))
                     (patterns (snd entry)))
       known_tools st"

subsection \<open>The download pass\<close>

text \<open>
  \<open>urlparse(url).netloc\<close> for a URL with a scheme, which every match of a download
  pattern has: the text between \<open>//\<close> and the first of \<open>/\<close>, \<open>?\<close> and \<open>#\<close>. One
  square bracket without the other raises \<open>ValueError\<close>. (Later interpreters also
  raise for a bracketed host that is not an IP address; the model has the older check
  only, so it differs from them on hosts in square brackets.)
\<close>

definition urlparse_netloc :: "string \<Rightarrow> error + string" where
  "urlparse_netloc url =
     (let rest = drop 1 (dropWhile (\<lambda>c. c \<noteq> CHR '':'') url);
          netloc = (if starts_with ''//'' rest
                    then takeWhile (\<lambda>c. c \<notin> set ''/?#'') (drop 2 rest) else [])
      in if (CHR ''['' \<in> set netloc) \<noteq> (CHR '']'' \<in> set netloc) then Inl ValueError
         else Inr netloc)"

definition new_dep_info :: "string \<Rightarrow> dep_info" where
  "new_dep_info d =
     \<lparr>domain = d, urls_found = {}, dep_referenced_in_artifacts = [],
      dep_referenced_in_packs = {}\<rparr>"

definition download_match ::
  "yaml \<Rightarrow> string \<Rightarrow> rmatch \<Rightarrow> analysis_results \<Rightarrow> (error \<times> analysis_results) + analysis_results" where
  "download_match artifact_name pack_name m st =
     (let url = group0 m in
      case urlparse_netloc url of
        Inl e \<Rightarrow> Inl (e, st)
      | Inr d \<Rightarrow>
          Inr (st\<lparr>dependencies_found :=
                    dict_modify d
                      (\<lambda>di. di\<lparr>urls_found := insert url (urls_found di),
                                dep_referenced_in_artifacts :=
                                  append_unique artifact_name (dep_referenced_in_artifacts di),
                                dep_referenced_in_packs :=
                                  insert pack_name (dep_referenced_in_packs di)\<rparr>)
                      (dict_setdefault d (new_dep_info d) (dependencies_found st))\<rparr>))"

definition find_download_urls ::
  "string \<Rightarrow> yaml \<Rightarrow> string \<Rightarrow> analysis_results \<Rightarrow> (error \<times> analysis_results) + analysis_results" where
  "find_download_urls text artifact_name pack_name st =
     for_each (\<lambda>pattern. for_each (download_match artifact_name pack_name)
                           (re_finditer True pattern text))
       download_patterns st"

subsection \<open>The nested query pass\<close>

text \<open>The body of the loop over the catalog, for one matched executable.\<close>

definition vql_tool ::
  "string \<Rightarrow> yaml \<Rightarrow> string \<Rightarrow> string \<times> tool_info \<Rightarrow> analysis_results \<Rightarrow> analysis_results" where
  "vql_tool executable artifact_name pack_name entry st =
     (if list_ex (\<lambda>p. re_search True p executable \<noteq> None) (patterns (snd entry)) then
        note_tool (fst entry) (snd entry) artifact_name pack_name executable st
      else st)"

definition vql_match :: "yaml \<Rightarrow> string \<Rightarrow> rmatch \<Rightarrow> analysis_results \<Rightarrow> analysis_results" where
  "vql_match artifact_name pack_name m st =
     (let executable = (if groups m \<noteq> [] then groups m ! 0 else group0 m)
      in fold (vql_tool executable artifact_name pack_name) known_tools st)"

text \<open>\<open>re.finditer\<close> raises \<open>TypeError\<close> on a query that is not a string.\<close>

definition analyze_vql_query ::
  "yaml \<Rightarrow> yaml \<Rightarrow> string \<Rightarrow> analysis_results \<Rightarrow> (error \<times> analysis_results) + analysis_results" where
  "analyze_vql_query vql_query artifact_name pack_name st =
     (case vql_query of
        YStr q \<Rightarrow>
          Inr (fold (\<lambda>pattern. fold (vql_match artifact_name pack_name) (re_finditer True pattern q))
                 exe_patterns st)
      | _ \<Rightarrow> Inl (TypeError, st))"

subsection \<open>One artifact file\<close>

text \<open>
  Lines 290 to 296: the name and the structured form of the document. A parser that
  raises, and a truthy result without \<open>get\<close> (anything but a mapping), both end in the
  \<open>except\<close> branch: the name is the stem and there is no structured form.
\<close>

definition artifact_identity :: "string \<Rightarrow> yaml option \<Rightarrow> yaml \<times> yaml option" where
  "artifact_identity file_stem loaded =
     (case loaded of
        None \<Rightarrow> (YStr file_stem, None)
      | Some artifact_data \<Rightarrow>
          (if truthy artifact_data then
             (case artifact_data of
                YMap kvs \<Rightarrow>
                  (case map_of kvs ''name'' of
                     Some v \<Rightarrow> (v, Some artifact_data)
                   | None \<Rightarrow> (YStr file_stem, Some artifact_data))
              | _ \<Rightarrow> (YStr file_stem, None))
           else (YStr file_stem, Some artifact_data)))"

text \<open>The body of the loop over \<open>artifact_data['sources']\<close>.\<close>

definition source_query ::
  "yaml \<Rightarrow> string \<Rightarrow> yaml \<Rightarrow> analysis_results \<Rightarrow> (error \<times> analysis_results) + analysis_results" where
  "source_query artifact_name pack_name source st =
     (case py_contains ''query'' source of
        Inl e \<Rightarrow> Inl (e, st)
      | Inr False \<Rightarrow> Inr st
      | Inr True \<Rightarrow>
          (case py_getitem ''query'' source of
             Inl e \<Rightarrow> Inl (e, st)
           | Inr q \<Rightarrow> analyze_vql_query q artifact_name pack_name st))"

text \<open>Lines 307 to 311.\<close>

definition nested_queries ::
  "yaml option \<Rightarrow> yaml \<Rightarrow> string \<Rightarrow> analysis_results \<Rightarrow> (error \<times> analysis_results) + analysis_results" where
  "nested_queries loaded artifact_name pack_name st =
     (case loaded of
        None \<Rightarrow> Inr st
      | Some artifact_data \<Rightarrow>
          (if truthy artifact_data then
             (case py_contains ''sources'' artifact_data of
                Inl e \<Rightarrow> Inl (e, st)
              | Inr False \<Rightarrow> Inr st
              | Inr True \<Rightarrow>
                  (case py_getitem ''sources'' artifact_data of
                     Inl e \<Rightarrow> Inl (e, st)
                   | Inr v \<Rightarrow>
                       (case py_iter v of
                          Inl e \<Rightarrow> Inl (e, st)
                        | Inr sources \<Rightarrow> for_each (source_query artifact_name pack_name) sources st)))
           else Inr st))"

text \<open>The outer \<open>except\<close> prints the exception and keeps what the passes did before it.\<close>

definition analyze_artifact_file ::
  "artifact_file \<Rightarrow> string \<Rightarrow> analysis_results \<Rightarrow> message list \<times> analysis_results" where
  "analyze_artifact_file f pack_name st =
     (case content f of
        None \<Rightarrow> ([ErrorAnalyzing (stem f) OSError], st)
      | Some text \<Rightarrow>
          (let artifact_name = fst (artifact_identity (stem f) (parsed f));
               artifact_data = snd (artifact_identity (stem f) (parsed f));
               st1 = find_github_repositories text artifact_name pack_name st;
               st2 = find_known_tools text artifact_name pack_name st1
           in case find_download_urls text artifact_name pack_name st2 of
                Inl (e, st3) \<Rightarrow> ([ErrorAnalyzing (stem f) e], st3)
              | Inr st3 \<Rightarrow>
                  (case nested_queries artifact_data artifact_name pack_name st3 of
                     Inl (e, st4) \<Rightarrow> ([ErrorAnalyzing (stem f) e], st4)
                   | Inr st4 \<Rightarrow> ([], st4))))"

subsection \<open>Packs\<close>

fun analyze_artifact_files ::
  "artifact_file list \<Rightarrow> string \<Rightarrow> analysis_results \<Rightarrow> message list \<times> analysis_results" where
  "analyze_artifact_files [] pack_name st = ([], st)"
| "analyze_artifact_files (f # fs) pack_name st =
     (let r1 = analyze_artifact_file f pack_name st;
          r2 = analyze_artifact_files fs pack_name (snd r1)
      in (fst r1 @ fst r2, snd r2))"

definition analyze_artifact_pack ::
  "string \<times> pack_file \<Rightarrow> analysis_results \<Rightarrow> message list \<times> analysis_results" where
  "analyze_artifact_pack pack st =
     (case extraction (snd pack) of
        None \<Rightarrow> ([FailedToExtract (fst pack)], st)
      | Some artifact_files \<Rightarrow>
          (let st1 = st\<lparr>total_artifacts := total_artifacts st + length artifact_files\<rparr>;
               r = analyze_artifact_files artifact_files (fst pack) st1
           in ([Extracted (fst pack), FoundArtifactFiles (length artifact_files)] @ fst r,
               (snd r)\<lparr>artifact_packs_analyzed :=
                          artifact_packs_analyzed (snd r) @
                            [\<lparr>file_name = fst pack, file_size = size_on_disk (snd pack),
                              artifacts_count = length artifact_files\<rparr>]\<rparr>)))"

text \<open>The loop \<open>for pack_file in pack_files\<close> of \<open>analyze_all_packs\<close>.\<close>

fun analyze_pack_files ::
  "(string \<times> pack_file) list \<Rightarrow> analysis_results \<Rightarrow> message list \<times> analysis_results" where
  "analyze_pack_files [] st = ([], st)"
| "analyze_pack_files (pack # packs) st =
     (let r1 = analyze_artifact_pack pack st;
          r2 = analyze_pack_files packs (snd r1)
      in (Analyzing (fst pack) # fst r1 @ fst r2, snd r2))"

subsection \<open>Scoring\<close>

text \<open>
  \<open>hasattr(repo_info, 'tool_name')\<close> asks for an attribute of the dictionary object,
  not for a key: it holds when the name is one of the attributes of \<open>dict\<close>.
\<close>

definition dict_attributes :: "string list" where
  "dict_attributes =
     [''__class__'', ''__class_getitem__'', ''__contains__'', ''__delattr__'', ''__delitem__'',
      ''__dir__'', ''__doc__'', ''__eq__'', ''__format__'', ''__ge__'', ''__getattribute__'',
      ''__getitem__'', ''__getstate__'', ''__gt__'', ''__hash__'', ''__init__'',
      ''__init_subclass__'', ''__ior__'', ''__iter__'', ''__le__'', ''__len__'', ''__lt__'',
      ''__ne__'', ''__new__'', ''__or__'', ''__reduce__'', ''__reduce_ex__'', ''__repr__'',
      ''__reversed__'', ''__ror__'', ''__setattr__'', ''__setitem__'', ''__sizeof__'',
      ''__str__'', ''__subclasshook__'', ''clear'', ''copy'', ''fromkeys'', ''get'', ''items'',
      ''keys'', ''pop'', ''popitem'', ''setdefault'', ''update'', ''values'']"

definition dict_hasattr :: "string \<Rightarrow> bool" where
  "dict_hasattr name = (name \<in> set dict_attributes)"

text \<open>Factor 1: the number of artifacts that reference the repository.\<close>

definition artifact_count :: "repo_info \<Rightarrow> int" where
  "artifact_count ri = int (length (referenced_in_artifacts ri))"

text \<open>Factor 2 (lines 512 to 520): the bonus for the priority of a known tool.\<close>

definition tier_bonus :: "repo_info \<Rightarrow> int" where
  "tier_bonus ri =
     (if dict_hasattr ''tool_name'' \<and> (case tool_name ri of None \<Rightarrow> False | Some t \<Rightarrow> t \<noteq> [])
      then (let tool_priority = priority ri
            in if tool_priority = ''critical'' then 100
               else if tool_priority = ''high'' then 50
               else if tool_priority = ''medium'' then 25
               else 0)
      else 0)"

text \<open>Factor 3: the organization.\<close>

definition org_bonus :: "repo_info \<Rightarrow> int" where
  "org_bonus ri =
     (let org = lower (organization ri)
      in if org \<in> set [''velocidx'', ''microsoft'', ''google'', ''mandiant'', ''fireeye''] then 30
         else if org \<in> set [''yamato-security'', ''countercept'', ''sigmahq''] then 20
         else 0)"

text \<open>Factor 4: a keyword in the repository name.\<close>

definition keyword_bonus :: "repo_info \<Rightarrow> int" where
  "keyword_bonus ri =
     (let repo_name = lower (repository_name ri)
      in if list_ex (\<lambda>keyword. contains keyword repo_name)
              [''forensic'', ''security'', ''malware'', ''incident'']
         then 15 else 0)"

definition score_of :: "repo_info \<Rightarrow> int" where
  "score_of ri = 0 + artifact_count ri * 10 + tier_bonus ri + org_bonus ri + keyword_bonus ri"

definition category_of :: "int \<Rightarrow> category" where
  "category_of score =
     (if score \<ge> 80 then high_priority
      else if score \<ge> 40 then medium_priority
      else low_priority)"

text \<open>The body of the loop of \<open>prioritize_fork_candidates\<close>, for the record under one key.\<close>

definition prioritize_repo :: "string \<Rightarrow> analysis_results \<Rightarrow> analysis_results" where
  "prioritize_repo repo_key st =
     (case map_of (repositories_found st) repo_key of
        None \<Rightarrow> st
      | Some repo_info \<Rightarrow>
          (let score = score_of repo_info;
               cat = category_of score
           in st\<lparr>repositories_found :=
                    dict_modify repo_key
                      (\<lambda>ri. ri\<lparr>priority_score := Some score, priority_category := Some cat\<rparr>)
                      (repositories_found st),
                  fork_candidates :=
                    (fork_candidates st)(cat := fork_candidates st cat @ [repo_key])\<rparr>))"

text \<open>The sort key \<open>x['priority_score']\<close> of a bucket entry, read through the registry.\<close>

definition score_at :: "analysis_results \<Rightarrow> string \<Rightarrow> int" where
  "score_at st repo_key =
     (case map_of (repositories_found st) repo_key of
        None \<Rightarrow> 0
      | Some ri \<Rightarrow> (case priority_score ri of None \<Rightarrow> 0 | Some v \<Rightarrow> v))"

text \<open>\<open>list.sort(key, reverse=True)\<close> is stable: a stable sort on the negated key.\<close>

definition sort_descending :: "('a \<Rightarrow> int) \<Rightarrow> 'a list \<Rightarrow> 'a list" where
  "sort_descending key xs = sort_key (\<lambda>x. - key x) xs"

definition prioritize_fork_candidates :: "analysis_results \<Rightarrow> analysis_results" where
  "prioritize_fork_candidates st =
     (let st1 = fold prioritize_repo (map fst (repositories_found st)) st
      in st1\<lparr>fork_candidates := (\<lambda>c. sort_descending (score_at st1) (fork_candidates st1 c))\<rparr>)"

definition enrich_repository_info :: "analysis_results \<Rightarrow> analysis_results" where
  "enrich_repository_info st =
     st\<lparr>repositories_found :=
          map (\<lambda>kv. (fst kv,
                     (snd kv)\<lparr>estimated_importance := Some (length (referenced_in_artifacts (snd kv))),
                              fork_recommended :=
                                Some ((case priority_score (snd kv) of None \<Rightarrow> 0 | Some v \<Rightarrow> v) \<ge> 40)\<rparr>))
            (repositories_found st)\<rparr>"

definition post_process_analysis :: "analysis_results \<Rightarrow> message list \<times> analysis_results" where
  "post_process_analysis st =
     ([PostProcessing, Prioritizing, Enriching],
      enrich_repository_info (prioritize_fork_candidates st))"

subsection \<open>The run\<close>

definition pack_names :: "string list" where
  "pack_names = [''artifact_pack.zip'', ''artifact_pack_v2.zip'']"

text \<open>The directory maps a file name to the pack of that name, when it exists.\<close>

definition find_packs :: "(string \<rightharpoonup> pack_file) \<Rightarrow> (string \<times> pack_file) list" where
  "find_packs dir =
     concat (map (\<lambda>pack_name. case dir pack_name of None \<Rightarrow> [] | Some p \<Rightarrow> [(pack_name, p)])
               pack_names)"

definition find_messages :: "(string \<rightharpoonup> pack_file) \<Rightarrow> message list" where
  "find_messages dir =
     map (\<lambda>pack_name. case dir pack_name of None \<Rightarrow> Missing pack_name | Some p \<Rightarrow> Found pack_name)
       pack_names"

text \<open>\<open>analyze_all_packs\<close> up to the end of the post-processing.\<close>

definition analyze_all_packs :: "(string \<rightharpoonup> pack_file) \<Rightarrow> message list \<times> analysis_results" where
  "analyze_all_packs dir =
     (let pack_files = find_packs dir in
      if pack_files = [] then (Starting # find_messages dir @ [NoPacksFound], initial_results)
      else (let r1 = analyze_pack_files pack_files initial_results;
                r2 = post_process_analysis (snd r1)
            in (Starting # find_messages dir @ fst r1 @ fst r2, snd r2)))"

subsection \<open>Notions used in the statements\<close>

text \<open>The state that a possibly raising step leaves behind.\<close>

definition outcome_state :: "('e \<times> 's) + 's \<Rightarrow> 's" where
  "outcome_state r = (case r of Inl es \<Rightarrow> snd es | Inr s \<Rightarrow> s)"

text \<open>
  A property of the analysis results is preserved by the passes when each of the
  elementary updates keeps it: the four record updates of the extraction passes and the
  two counters of \<open>analyze_artifact_pack\<close>.
\<close>

definition preserved :: "(analysis_results \<Rightarrow> bool) \<Rightarrow> bool" where
  "preserved P =
     ((\<forall>a p m st. P st \<longrightarrow> P (github_match a p m st)) \<and>
      (\<forall>n i a p x st. P st \<longrightarrow> P (note_tool n i a p x st)) \<and>
      (\<forall>n i a p st. P st \<longrightarrow> P (note_tool_repo n i a p st)) \<and>
      (\<forall>a p m st. P st \<longrightarrow> P (outcome_state (download_match a p m st))) \<and>
      (\<forall>n st. P st \<longrightarrow> P (st\<lparr>total_artifacts := n\<rparr>)) \<and>
      (\<forall>x st. P st \<longrightarrow> P (st\<lparr>artifact_packs_analyzed := x\<rparr>)))"

text \<open>Before the post-processing the registry has one entry per key and the buckets
  are empty.\<close>

definition registry_ready :: "analysis_results \<Rightarrow> bool" where
  "registry_ready st =
     (distinct (map fst (repositories_found st)) \<and> fork_candidates st = (\<lambda>c. []))"

text \<open>What \<open>prioritize_fork_candidates\<close>, and then \<open>enrich_repository_info\<close>, make of
  one record.\<close>

definition scored :: "repo_info \<Rightarrow> repo_info" where
  "scored ri =
     ri\<lparr>priority_score := Some (score_of ri),
        priority_category := Some (category_of (score_of ri))\<rparr>"

definition enriched :: "repo_info \<Rightarrow> repo_info" where
  "enriched ri =
     ri\<lparr>priority_score := Some (score_of ri),
        priority_category := Some (category_of (score_of ri)),
        estimated_importance := Some (length (referenced_in_artifacts ri)),
        fork_recommended := Some (score_of ri \<ge> 40)\<rparr>"

text \<open>No document name is listed twice in a referencing-document list.\<close>

definition unique_refs :: "analysis_results \<Rightarrow> bool" where
  "unique_refs st =
     ((\<forall>kv \<in> set (repositories_found st). distinct (referenced_in_artifacts (snd kv))) \<and>
      (\<forall>kv \<in> set (tools_found st). distinct (tool_referenced_in_artifacts (snd kv))) \<and>
      (\<forall>kv \<in> set (dependencies_found st). distinct (dep_referenced_in_artifacts (snd kv))))"

text \<open>The second record is the first one with more references: every field but the
  three reference containers is the same, the list of referencing documents is extended
  at its end, and the two sets have grown.\<close>

definition references_extended :: "repo_info \<Rightarrow> repo_info \<Rightarrow> bool" where
  "references_extended r r' =
     (organization r' = organization r \<and> repository_name r' = repository_name r \<and>
      repository_url r' = repository_url r \<and> priority r' = priority r \<and>
      language r' = language r \<and> stars r' = stars r \<and> license r' = license r \<and>
      tool_name r' = tool_name r \<and> priority_score r' = priority_score r \<and>
      priority_category r' = priority_category r \<and>
      estimated_importance r' = estimated_importance r \<and>
      fork_recommended r' = fork_recommended r \<and>
      take (length (referenced_in_artifacts r)) (referenced_in_artifacts r') =
        referenced_in_artifacts r \<and>
      referenced_in_packs r \<subseteq> referenced_in_packs r' \<and>
      full_urls_found r \<subseteq> full_urls_found r')"

text \<open>
  What \<open>clean_repo\<close> strips from the end of a name: a run of the characters
  \<open>. , ; )\<close>, followed by nothing or by a query string or fragment (\<open>?\<close> or \<open>#\<close>
  and whatever follows). A plain name has no \<open>?\<close> and no \<open>#\<close> and does not end in
  one of the four characters.
\<close>

definition decoration :: "string \<Rightarrow> bool" where
  "decoration d =
     (case dropWhile (\<lambda>c. c \<in> set ''.,;)'') d of
        [] \<Rightarrow> True
      | c # rest \<Rightarrow> c = CHR ''?'' \<or> c = CHR ''#'')"

definition plain_name :: "string \<Rightarrow> bool" where
  "plain_name repo =
     (CHR ''?'' \<notin> set repo \<and> CHR ''#'' \<notin> set repo \<and>
      (repo = [] \<or> last repo \<notin> set ''.,;)''))"










subsection \<open>Concrete inputs\<close>

text \<open>One pack with one document that holds a link into the Sigma repository and the
  word sigma; the document does not parse.\<close>

definition sigma_document :: artifact_file where
  "sigma_document =
     \<lparr>stem = ''doc'',
      content = Some ''https://github.com/SigmaHQ/sigma/blob/master/rules/x.yml sigma'',
      parsed = None\<rparr>"

definition sigma_directory :: "string \<rightharpoonup> pack_file" where
  "sigma_directory =
     [''artifact_pack.zip'' \<mapsto> \<lparr>size_on_disk = 100, extraction = Some [sigma_document]\<rparr>]"

text \<open>One pack with one document that names the tool hayabusa.\<close>

definition hayabusa_directory :: "string \<rightharpoonup> pack_file" where
  "hayabusa_directory =
     [''artifact_pack.zip'' \<mapsto>
        \<lparr>size_on_disk = 100,
         extraction = Some [\<lparr>stem = ''doc'', content = Some ''hayabusa'', parsed = None\<rparr>]\<rparr>]"

text \<open>One pack with one document that links two repositories.\<close>

definition two_repo_pack :: pack_file where
  "two_repo_pack =
     \<lparr>size_on_disk = 100,
      extraction =
        Some [\<lparr>stem = ''doc'', content = Some ''github.com/a/b github.com/google/c'',
               parsed = None\<rparr>]\<rparr>"

definition two_repo_directory :: "string \<rightharpoonup> pack_file" where
  "two_repo_directory = [''artifact_pack.zip'' \<mapsto> two_repo_pack]"

text \<open>The state after the tool pass has seen the word sigma in a first document.\<close>

definition sigma_tool_state :: analysis_results where
  "sigma_tool_state = find_known_tools ''sigma'' (YStr ''first'') ''artifact_pack.zip'' initial_results"

text \<open>Two links to one repository, one with a query string and one with a full stop.\<close>

definition decorated_text :: string where
  "decorated_text = ''https://github.com/SigmaHQ/sigma?tab=readme https://github.com/SigmaHQ/sigma.''"

text \<open>A pack whose extraction fails, beside a pack that extracts.\<close>

definition broken_pack :: pack_file where
  "broken_pack = \<lparr>size_on_disk = 7, extraction = None\<rparr>"

definition failing_directory :: "string \<rightharpoonup> pack_file" where
  "failing_directory =
     [''artifact_pack.zip'' \<mapsto> broken_pack, ''artifact_pack_v2.zip'' \<mapsto> two_repo_pack]"



text \<open>A link in double quotes and the same link bare.\<close>

definition quoted_text :: string where
  "quoted_text =
     ''url: '' @ [CHR 0x22] @ ''https://github.com/SigmaHQ/sigma'' @ [CHR 0x22] @
     '' and https://github.com/SigmaHQ/sigma''"











section \<open>Evaluation\<close>

text \<open>
  Code equations for the character classes, on the bits of a character, so that a
  pattern can be run on a concrete text inside the logic.
\<close>

lemma isupper_code [code]:
  "isupper (Char b0 b1 b2 b3 b4 b5 b6 b7) =
     (\<not> b7 \<and> b6 \<and> \<not> b5 \<and> (b0 \<or> b1 \<or> b2 \<or> b3 \<or> b4) \<and> \<not> (b4 \<and> b3 \<and> (b2 \<or> (b1 \<and> b0))))"
  unfolding isupper_def by (simp; argo)

lemma islower_code [code]:
  "islower (Char b0 b1 b2 b3 b4 b5 b6 b7) =
     (\<not> b7 \<and> b6 \<and> b5 \<and> (b0 \<or> b1 \<or> b2 \<or> b3 \<or> b4) \<and> \<not> (b4 \<and> b3 \<and> (b2 \<or> (b1 \<and> b0))))"
  unfolding islower_def by (simp; argo)

lemma isdigit_code [code]:
  "isdigit (Char b0 b1 b2 b3 b4 b5 b6 b7) =
     (\<not> b7 \<and> \<not> b6 \<and> b5 \<and> b4 \<and> \<not> (b3 \<and> (b2 \<or> b1)))"
  unfolding isdigit_def by (simp; argo)

lemma isspace_code [code]:
  "isspace (Char b0 b1 b2 b3 b4 b5 b6 b7) =
     (\<not> b7 \<and> \<not> b6 \<and> ((\<not> b5 \<and> \<not> b4 \<and> b3 \<and> (if b2 then \<not> b1 else b1 \<or> b0)) \<or> (\<not> b5 \<and> b4 \<and> b3 \<and> b2) \<or> (b5 \<and> \<not> b4 \<and> \<not> b3 \<and> \<not> b2 \<and> \<not> b1 \<and> \<not> b0)))"
  unfolding isspace_def by (simp; argo)

lemma tolower_upper:
  "isupper (Char b0 b1 b2 b3 b4 b5 b6 b7) \<Longrightarrow>
   tolower (Char b0 b1 b2 b3 b4 b5 b6 b7) = Char b0 b1 b2 b3 b4 True b6 b7"
  unfolding isupper_def tolower_def by (simp; argo)

lemma tolower_other: "\<not> isupper c \<Longrightarrow> tolower c = c"
  unfolding isupper_def tolower_def by (auto split: option.splits dest!: map_of_SomeD)

lemma tolower_code [code]:
  "tolower (Char b0 b1 b2 b3 b4 b5 b6 b7) =
     (if isupper (Char b0 b1 b2 b3 b4 b5 b6 b7) then Char b0 b1 b2 b3 b4 True b6 b7
      else Char b0 b1 b2 b3 b4 b5 b6 b7)"
  by (simp add: tolower_upper tolower_other)

section \<open>Dictionaries\<close>

lemma map_fst_dict_modify: "map fst (dict_modify k f d) = map fst d"
  by (induction d) (auto simp: dict_modify_def)

lemma map_of_dict_modify:
  "map_of (dict_modify k f d) k' = (if k' = k then map_option f (map_of d k') else map_of d k')"
  by (induction d) (auto simp: dict_modify_def)

lemma dict_modify_absent: "k \<notin> set (map fst d) \<Longrightarrow> dict_modify k f d = d"
  by (induction d) (auto simp: dict_modify_def)

lemma dict_modify_Cons_other: "fst kv \<noteq> k \<Longrightarrow> dict_modify k f (kv # d) = kv # dict_modify k f d"
  by (simp add: dict_modify_def)

lemma dict_modify_Cons_same: "dict_modify k f ((k, v) # d) = (k, f v) # dict_modify k f d"
  by (simp add: dict_modify_def)

lemma score_of_scored: "score_of (r\<lparr>priority_score := a, priority_category := b\<rparr>) = score_of r"
  by (simp add: score_of_def artifact_count_def tier_bonus_def org_bonus_def keyword_bonus_def)

text \<open>Processing the keys of a suffix of the registry.\<close>

lemma fold_prioritize_repo:
  "distinct (map fst (pre @ d)) \<Longrightarrow> repositories_found st = pre @ d \<Longrightarrow>
   repositories_found (fold prioritize_repo (map fst d) st) = pre @ map (\<lambda>kv. (fst kv, scored (snd kv))) d \<and>
   fork_candidates (fold prioritize_repo (map fst d) st) =
     (\<lambda>c. fork_candidates st c @ map fst (filter (\<lambda>kv. category_of (score_of (snd kv)) = c) d))"
proof (induction d arbitrary: pre st)
  case Nil
  then show ?case by simp
next
  case (Cons kv d)
  obtain k r where kv: "kv = (k, r)" by (cases kv)
  let ?st = "prioritize_repo k st"
  from Cons.prems kv have notin: "k \<notin> set (map fst pre)" "k \<notin> set (map fst d)" by auto
  have look: "map_of (repositories_found st) k = Some r"
    using Cons.prems(2) notin kv by (simp add: map_add_def map_of_eq_None_iff[THEN iffD2] split: option.splits)
  have reg: "repositories_found ?st = (pre @ [(k, scored r)]) @ d"
    using look Cons.prems(2) notin kv
    by (simp add: prioritize_repo_def Let_def dict_modify_def scored_def)
       (auto simp: image_iff intro!: map_idI)
  have fc: "fork_candidates ?st = (\<lambda>c. fork_candidates st c @ (if category_of (score_of r) = c then [k] else []))"
    using look by (auto simp: prioritize_repo_def Let_def fun_eq_iff)
  have d: "distinct (map fst ((pre @ [(k, scored r)]) @ d))"
    using Cons.prems(1) kv by auto
  from Cons.IH[OF d reg] show ?case
    by (auto simp: kv fc fun_eq_iff)
qed

lemma score_at_fork_candidates: "score_at (st\<lparr>fork_candidates := x\<rparr>) = score_at st"
  by (simp add: score_at_def fun_eq_iff)

lemma prioritize_fork_candidates_eq:
  assumes "distinct (map fst (repositories_found st))"
  shows "repositories_found (prioritize_fork_candidates st) =
           map (\<lambda>kv. (fst kv, scored (snd kv))) (repositories_found st)"
    and "fork_candidates (prioritize_fork_candidates st) c =
           sort_descending (score_at (prioritize_fork_candidates st))
             (fork_candidates st c @ map fst (filter (\<lambda>kv. category_of (score_of (snd kv)) = c) (repositories_found st)))"
  using fold_prioritize_repo[of "[]" "repositories_found st" st] assms
  by (simp_all add: prioritize_fork_candidates_def Let_def score_at_fork_candidates)


section \<open>Properties kept by every pass\<close>

lemma outcome_state_simps [simp]:
  "outcome_state (Inl (e, s)) = s" "outcome_state (Inr s) = s"
  by (simp_all add: outcome_state_def)

lemma fold_preserves: "(\<And>x s. P s \<Longrightarrow> P (f x s)) \<Longrightarrow> P s \<Longrightarrow> P (fold f xs s)"
  by (induction xs arbitrary: s) auto

lemma for_each_preserves:
  "(\<And>x s. P s \<Longrightarrow> P (outcome_state (body x s))) \<Longrightarrow> P s \<Longrightarrow> P (outcome_state (for_each body xs s))"
proof (induction xs arbitrary: s)
  case Nil
  then show ?case by simp
next
  case (Cons x xs)
  show ?case
  proof (cases "body x s")
    case (Inl es)
    with Cons.prems(1)[OF Cons.prems(2), of x] show ?thesis by simp
  next
    case (Inr s')
    with Cons.prems(1)[OF Cons.prems(2), of x] have "P s'" by simp
    from Cons.IH[OF Cons.prems(1) this] Inr show ?thesis by simp
  qed
qed

lemma find_github_repositories_preserves:
  "preserved P \<Longrightarrow> P st \<Longrightarrow> P (find_github_repositories text a p st)"
  unfolding find_github_repositories_def
  by (rule fold_preserves, rule fold_preserves) (auto simp: preserved_def)

lemma tool_pattern_preserves:
  "preserved P \<Longrightarrow> P st \<Longrightarrow> P (tool_pattern text a p n i pat st)"
  by (auto simp: tool_pattern_def preserved_def)

lemma find_known_tools_preserves:
  "preserved P \<Longrightarrow> P st \<Longrightarrow> P (find_known_tools text a p st)"
  unfolding find_known_tools_def
  by (rule fold_preserves, rule fold_preserves) (auto intro: tool_pattern_preserves)

lemma find_download_urls_preserves:
  "preserved P \<Longrightarrow> P st \<Longrightarrow> P (outcome_state (find_download_urls text a p st))"
  unfolding find_download_urls_def
  by (rule for_each_preserves, rule for_each_preserves) (auto simp: preserved_def)

lemma vql_match_preserves:
  "preserved P \<Longrightarrow> P st \<Longrightarrow> P (vql_match a p m st)"
  unfolding vql_match_def Let_def
  by (rule fold_preserves) (auto simp: vql_tool_def preserved_def)

lemma vql_patterns_preserves:
  "preserved P \<Longrightarrow> P st \<Longrightarrow>
   P (fold (\<lambda>pattern. fold (vql_match a p) (re_finditer True pattern q)) pats st)"
  by (rule fold_preserves, rule fold_preserves) (auto intro: vql_match_preserves)

lemma analyze_vql_query_preserves:
  "preserved P \<Longrightarrow> P st \<Longrightarrow> P (outcome_state (analyze_vql_query q a p st))"
  unfolding analyze_vql_query_def
  by (cases q) (simp_all add: vql_patterns_preserves)

lemma source_query_preserves:
  "preserved P \<Longrightarrow> P st \<Longrightarrow> P (outcome_state (source_query a p src st))"
  unfolding source_query_def
  by (simp add: analyze_vql_query_preserves split: sum.splits bool.splits)

lemma nested_queries_preserves:
  "preserved P \<Longrightarrow> P st \<Longrightarrow> P (outcome_state (nested_queries d a p st))"
proof -
  assume a: "preserved P" "P st"
  have "P (outcome_state (for_each (source_query a p) srcs st))" for srcs
    by (rule for_each_preserves) (auto intro: source_query_preserves a)
  with a show ?thesis
    unfolding nested_queries_def
    by (simp split: option.splits sum.splits bool.splits)
qed

lemma snd_analyze_artifact_file:
  "content f = Some body \<Longrightarrow>
   snd (analyze_artifact_file f p st) =
     (case find_download_urls body (fst (artifact_identity (stem f) (parsed f))) p
             (find_known_tools body (fst (artifact_identity (stem f) (parsed f))) p
               (find_github_repositories body (fst (artifact_identity (stem f) (parsed f))) p st)) of
        Inl es \<Rightarrow> snd es
      | Inr st3 \<Rightarrow>
          outcome_state (nested_queries (snd (artifact_identity (stem f) (parsed f)))
                           (fst (artifact_identity (stem f) (parsed f))) p st3))"
  unfolding analyze_artifact_file_def Let_def
  by (simp split: sum.split prod.split)

lemma analyze_artifact_file_preserves:
  assumes "preserved P" "P st"
  shows "P (snd (analyze_artifact_file f p st))"
proof (cases "content f")
  case None
  with assms show ?thesis by (simp add: analyze_artifact_file_def)
next
  case (Some body)
  let ?a = "fst (artifact_identity (stem f) (parsed f))"
  let ?d = "snd (artifact_identity (stem f) (parsed f))"
  let ?st2 = "find_known_tools body ?a p (find_github_repositories body ?a p st)"
  have 2: "P ?st2"
    by (rule find_known_tools_preserves[OF assms(1)], rule find_github_repositories_preserves[OF assms])
  have 3: "P (outcome_state (find_download_urls body ?a p ?st2))"
    using assms(1) 2 by (rule find_download_urls_preserves)
  show ?thesis
  proof (cases "find_download_urls body ?a p ?st2")
    case (Inl es)
    with 3 show ?thesis
      unfolding snd_analyze_artifact_file[OF Some] by (simp add: outcome_state_def)
  next
    case (Inr st3)
    with 3 have "P st3" by simp
    from nested_queries_preserves[OF assms(1) this, of ?d ?a p] Inr show ?thesis
      unfolding snd_analyze_artifact_file[OF Some] by simp
  qed
qed

lemma analyze_artifact_files_preserves:
  "preserved P \<Longrightarrow> P st \<Longrightarrow> P (snd (analyze_artifact_files fs p st))"
  by (induction fs arbitrary: st) (simp_all add: Let_def analyze_artifact_file_preserves)

lemma snd_analyze_artifact_pack:
  "snd (analyze_artifact_pack pack st) =
     (case extraction (snd pack) of
        None \<Rightarrow> st
      | Some fs \<Rightarrow>
          (snd (analyze_artifact_files fs (fst pack)
                  (st\<lparr>total_artifacts := total_artifacts st + length fs\<rparr>)))
            \<lparr>artifact_packs_analyzed :=
               artifact_packs_analyzed
                 (snd (analyze_artifact_files fs (fst pack)
                         (st\<lparr>total_artifacts := total_artifacts st + length fs\<rparr>))) @
               [\<lparr>file_name = fst pack, file_size = size_on_disk (snd pack),
                 artifacts_count = length fs\<rparr>]\<rparr>)"
  by (simp add: analyze_artifact_pack_def Let_def split: option.split)

lemma analyze_artifact_pack_preserves:
  assumes "preserved P" "P st"
  shows "P (snd (analyze_artifact_pack pack st))"
proof (cases "extraction (snd pack)")
  case None
  with assms(2) show ?thesis by (simp add: snd_analyze_artifact_pack)
next
  case (Some fs)
  from assms have "P (st\<lparr>total_artifacts := total_artifacts st + length fs\<rparr>)"
    by (simp add: preserved_def)
  from analyze_artifact_files_preserves[OF assms(1) this]
  have "P (snd (analyze_artifact_files fs (fst pack)
                  (st\<lparr>total_artifacts := total_artifacts st + length fs\<rparr>)))" .
  with assms(1) Some show ?thesis
    by (simp add: snd_analyze_artifact_pack preserved_def)
qed

lemma analyze_pack_files_preserves:
  "preserved P \<Longrightarrow> P st \<Longrightarrow> P (snd (analyze_pack_files packs st))"
  by (induction packs arbitrary: st) (simp_all add: Let_def analyze_artifact_pack_preserves)


lemma distinct_dict_setdefault:
  "distinct (map fst d) \<Longrightarrow> distinct (map fst (dict_setdefault k v d))"
  by (simp add: dict_setdefault_def)

lemma outcome_download_match:
  "outcome_state (download_match a p m st) = st \<or>
   (\<exists>x. outcome_state (download_match a p m st) = st\<lparr>dependencies_found := x\<rparr>)"
  by (auto simp: download_match_def Let_def split: sum.splits)

lemma registry_ready_preserved: "preserved registry_ready"
  unfolding preserved_def
proof (intro conjI allI impI)
  fix a p m st assume "registry_ready st"
  then show "registry_ready (github_match a p m st)"
    by (simp add: registry_ready_def github_match_def Let_def map_fst_dict_modify distinct_dict_setdefault)
next
  fix n i a p x st assume "registry_ready st"
  then show "registry_ready (note_tool n i a p x st)"
    by (simp add: registry_ready_def note_tool_def)
next
  fix n i a p st assume "registry_ready st"
  then show "registry_ready (note_tool_repo n i a p st)"
    by (simp add: registry_ready_def note_tool_repo_def Let_def map_fst_dict_modify
          distinct_dict_setdefault split: option.splits)
next
  fix a p m st assume "registry_ready st"
  with outcome_download_match[of a p m st]
  show "registry_ready (outcome_state (download_match a p m st))"
    by (auto simp: registry_ready_def)
qed (simp_all add: registry_ready_def)

lemma registry_ready_initial: "registry_ready initial_results"
  by (simp add: registry_ready_def initial_results_def)

lemma registry_ready_packs: "registry_ready (snd (analyze_pack_files packs initial_results))"
  by (rule analyze_pack_files_preserves[OF registry_ready_preserved registry_ready_initial])

text \<open>The state after post-processing, from a ready registry.\<close>

lemma post_process_registry:
  assumes "registry_ready st"
  shows "repositories_found (snd (post_process_analysis st)) =
           map (\<lambda>kv. (fst kv, enriched (snd kv))) (repositories_found st)"
  using assms prioritize_fork_candidates_eq(1)[of st]
  by (simp add: post_process_analysis_def enrich_repository_info_def registry_ready_def
        scored_def enriched_def)

lemma map_of_map_values:
  "map_of (map (\<lambda>kv. (fst kv, f (snd kv))) d) k = map_option f (map_of d k)"
  by (induction d) auto

lemma score_at_post_process:
  assumes "registry_ready st" "(k, r) \<in> set (repositories_found st)"
  shows "score_at (snd (post_process_analysis st)) k = score_of r"
proof -
  from assms have "map_of (repositories_found st) k = Some r"
    by (simp add: registry_ready_def)
  then have "map_of (map (\<lambda>kv. (fst kv, enriched (snd kv))) (repositories_found st)) k = Some (enriched r)"
    by (simp add: map_of_map_values)
  then show ?thesis
    by (simp add: score_at_def post_process_registry[OF assms(1)]) (simp add: enriched_def)
qed


lemma post_process_buckets:
  assumes "registry_ready st"
  shows "fork_candidates (snd (post_process_analysis st)) c =
           sort_descending (score_at (snd (post_process_analysis st)))
             (map fst (filter (\<lambda>kv. category_of (score_of (snd kv)) = c) (repositories_found st)))"
proof -
  have "score_at (enrich_repository_info s) = score_at s" for s
    unfolding score_at_def enrich_repository_info_def fun_eq_iff
    by (simp add: map_of_map_values[where f = "\<lambda>ri. ri\<lparr>estimated_importance := Some (length (referenced_in_artifacts ri)),
            fork_recommended := Some ((case priority_score ri of None \<Rightarrow> 0 | Some v \<Rightarrow> v) \<ge> 40)\<rparr>"]
          split: option.splits)
  with assms prioritize_fork_candidates_eq(2)[of st c] show ?thesis
    by (simp add: post_process_analysis_def registry_ready_def enrich_repository_info_def)
qed

lemma post_process_bucket_set:
  assumes "registry_ready st"
  shows "set (fork_candidates (snd (post_process_analysis st)) c) =
           {k. \<exists>r. (k, r) \<in> set (repositories_found st) \<and> category_of (score_of r) = c}"
  by (auto simp: post_process_buckets[OF assms] sort_descending_def image_iff)

lemma post_process_bucket_distinct:
  assumes "registry_ready st"
  shows "distinct (fork_candidates (snd (post_process_analysis st)) c)"
proof -
  from assms have "distinct (map fst (repositories_found st))"
    by (simp add: registry_ready_def)
  then have "distinct (map fst (filter (\<lambda>kv. category_of (score_of (snd kv)) = c) (repositories_found st)))"
    by (rule distinct_map_filter)
  then show ?thesis
    by (simp add: post_process_buckets[OF assms] sort_descending_def)
qed

lemma post_process_bucket_sorted:
  assumes "registry_ready st"
  shows "sorted_wrt (\<lambda>a b. score_at (snd (post_process_analysis st)) a \<ge> score_at (snd (post_process_analysis st)) b)
           (fork_candidates (snd (post_process_analysis st)) c)"
proof -
  let ?f = "\<lambda>x. - score_at (snd (post_process_analysis st)) x"
  have "sorted (map ?f (sort_key ?f xs))" for xs by (rule sorted_sort_key)
  then have "sorted_wrt (\<lambda>a b. ?f a \<le> ?f b) (sort_key ?f xs)" for xs
    by (simp add: sorted_wrt_map)
  then show ?thesis
    by (simp add: post_process_buckets[OF assms] sort_descending_def)
qed

lemma post_process_bucket_stable:
  assumes "registry_ready st"
  shows "filter (\<lambda>k. score_at (snd (post_process_analysis st)) k = v)
           (fork_candidates (snd (post_process_analysis st)) c) =
         filter (\<lambda>k. score_at (snd (post_process_analysis st)) k = v \<and> category_of v = c)
           (map fst (repositories_found st))"
proof -
  let ?s = "score_at (snd (post_process_analysis st))"
  let ?f = "\<lambda>x. - ?s x"
  have "filter (\<lambda>k. ?f k = - v) (sort_key ?f xs) = filter (\<lambda>k. ?f k = - v) xs" for xs
    by (rule sort_key_stable)
  then have st: "filter (\<lambda>k. ?s k = v) (sort_key ?f xs) = filter (\<lambda>k. ?s k = v) xs" for xs
    by simp
  have "filter (\<lambda>k. ?s k = v) (map fst (filter (\<lambda>kv. category_of (score_of (snd kv)) = c) (repositories_found st)))
      = filter (\<lambda>k. ?s k = v \<and> category_of v = c) (map fst (repositories_found st))"
    unfolding filter_map filter_filter
    by (rule arg_cong[where f = "map fst"], rule filter_cong)
       (auto simp: score_at_post_process[OF assms])
  then show ?thesis
    by (simp add: post_process_buckets[OF assms] sort_descending_def st)
qed


lemma run_cases:
  "snd (analyze_all_packs dir) = initial_results \<or>
   (\<exists>st0. registry_ready st0 \<and> snd (analyze_all_packs dir) = snd (post_process_analysis st0))"
  using registry_ready_packs[of "find_packs dir"]
  by (auto simp: analyze_all_packs_def Let_def)

lemma category_of_cases:
  "(category_of v = high_priority) = (80 \<le> v)"
  "(category_of v = medium_priority) = (40 \<le> v \<and> v < 80)"
  "(category_of v = low_priority) = (v < 40)"
  by (auto simp: category_of_def)

lemma post_process_record:
  assumes "registry_ready st0" "(k, r) \<in> set (repositories_found (snd (post_process_analysis st0)))"
  shows "\<exists>r0. (k, r0) \<in> set (repositories_found st0) \<and> r = enriched r0 \<and>
              score_at (snd (post_process_analysis st0)) k = score_of r0"
proof -
  from assms(2) obtain kv where kv: "kv \<in> set (repositories_found st0)"
    "k = fst kv" "r = enriched (snd kv)"
    unfolding post_process_registry[OF assms(1)] by auto
  then have "(k, snd kv) \<in> set (repositories_found st0)" by simp
  with score_at_post_process[OF assms(1) this] kv(3) show ?thesis by blast
qed

lemma post_process_member:
  assumes "registry_ready st0" "(k, r0) \<in> set (repositories_found st0)"
  shows "(k \<in> set (fork_candidates (snd (post_process_analysis st0)) c)) = (category_of (score_of r0) = c)"
proof -
  from assms have d: "distinct (map fst (repositories_found st0))"
    by (simp add: registry_ready_def)
  have u: "r = r0" if "(k, r) \<in> set (repositories_found st0)" for r
    using d that assms(2) by (meson eq_key_imp_eq_value)
  show ?thesis
    unfolding post_process_bucket_set[OF assms(1)] using assms(2) u by blast
qed

section \<open>Referencing documents, tiers and names\<close>

lemma distinct_append_unique: "distinct xs \<Longrightarrow> distinct (append_unique x xs)"
  by (simp add: append_unique_def)

lemma dict_upsert_all:
  assumes "\<forall>kv \<in> set d. Q (snd kv)" "Q v" "\<And>x. Q x \<Longrightarrow> Q (f x)"
  shows "\<forall>kv \<in> set (dict_modify k f (dict_setdefault k v d)). Q (snd kv)"
  using assms by (auto simp: dict_modify_def dict_setdefault_def)

lemma unique_refs_preserved: "preserved unique_refs"
  unfolding preserved_def
proof (intro conjI allI impI)
  fix a p m st assume u: "unique_refs st"
  show "unique_refs (github_match a p m st)"
  proof (cases "2 \<le> length (groups m)")
    case True
    have "\<forall>kv \<in> set (dict_modify k
             (\<lambda>ri. ri\<lparr>referenced_in_artifacts := append_unique a (referenced_in_artifacts ri),
                       referenced_in_packs := insert p (referenced_in_packs ri),
                       full_urls_found := insert (group0 m) (full_urls_found ri)\<rparr>)
             (dict_setdefault k (new_repo_info org repo) (repositories_found st))).
            distinct (referenced_in_artifacts (snd kv))" for k org repo
      using u by (intro dict_upsert_all)
        (simp_all add: unique_refs_def new_repo_info_def distinct_append_unique)
    with u True show ?thesis
      by (simp add: github_match_def Let_def unique_refs_def)
  next
    case False
    with u show ?thesis by (simp add: github_match_def)
  qed
next
  fix n i a p x st assume u: "unique_refs st"
  have "\<forall>kv \<in> set (dict_modify n
           (\<lambda>td. td\<lparr>tool_referenced_in_artifacts := append_unique a (tool_referenced_in_artifacts td),
                     tool_referenced_in_packs := insert p (tool_referenced_in_packs td),
                     patterns_matched := insert x (patterns_matched td)\<rparr>)
           (dict_setdefault n (new_tool_data n i) (tools_found st))).
          distinct (tool_referenced_in_artifacts (snd kv))"
    using u by (intro dict_upsert_all)
      (simp_all add: unique_refs_def new_tool_data_def distinct_append_unique)
  with u show "unique_refs (note_tool n i a p x st)"
    by (simp add: note_tool_def unique_refs_def)
next
  fix n i a p st assume u: "unique_refs st"
  have "\<forall>kv \<in> set (dict_modify k
           (\<lambda>ri. ri\<lparr>referenced_in_artifacts := append_unique a (referenced_in_artifacts ri),
                     referenced_in_packs := insert p (referenced_in_packs ri),
                     priority := cat_priority i, language := cat_language i\<rparr>)
           (dict_setdefault k (new_tool_repo_info n i org repo) (repositories_found st))).
          distinct (referenced_in_artifacts (snd kv))" for k org repo
    using u by (intro dict_upsert_all)
      (simp_all add: unique_refs_def new_tool_repo_info_def distinct_append_unique)
  with u show "unique_refs (note_tool_repo n i a p st)"
    by (simp add: note_tool_repo_def Let_def unique_refs_def split: option.splits)
next
  fix a p m st assume u: "unique_refs st"
  have "\<forall>kv \<in> set (dict_modify d
           (\<lambda>di. di\<lparr>urls_found := insert url (urls_found di),
                     dep_referenced_in_artifacts := append_unique a (dep_referenced_in_artifacts di),
                     dep_referenced_in_packs := insert p (dep_referenced_in_packs di)\<rparr>)
           (dict_setdefault d (new_dep_info d) (dependencies_found st))).
          distinct (dep_referenced_in_artifacts (snd kv))" for d url
    using u by (intro dict_upsert_all)
      (simp_all add: unique_refs_def new_dep_info_def distinct_append_unique)
  with u show "unique_refs (outcome_state (download_match a p m st))"
    by (simp add: download_match_def Let_def unique_refs_def split: sum.splits)
qed (simp_all add: unique_refs_def)

lemma unique_refs_initial: "unique_refs initial_results"
  by (simp add: unique_refs_def initial_results_def)

lemma unique_refs_post_process:
  assumes "unique_refs st" "registry_ready st"
  shows "unique_refs (snd (post_process_analysis st))"
proof -
  have "tools_found (snd (post_process_analysis st)) = tools_found st"
    "dependencies_found (snd (post_process_analysis st)) = dependencies_found st"
    by (simp_all add: post_process_analysis_def enrich_repository_info_def
          prioritize_fork_candidates_def Let_def fold_preserves[where P = "\<lambda>s. tools_found s = tools_found st"]
          fold_preserves[where P = "\<lambda>s. dependencies_found s = dependencies_found st"]
          prioritize_repo_def split: option.splits)
  with assms(1) show ?thesis
    by (auto simp: unique_refs_def post_process_registry[OF assms(2)] enriched_def)
qed

lemma references_extended_refl: "references_extended r r"
  by (simp add: references_extended_def)

lemma take_prefix_trans:
  assumes "take (length xs) ys = xs" "take (length ys) zs = ys"
  shows "take (length xs) zs = xs"
proof -
  have "length (take (length xs) ys) = min (length ys) (length xs)"
    by simp
  with assms(1) have "length xs \<le> length ys"
    by simp
  then have "take (length xs) zs = take (length xs) (take (length ys) zs)"
    by (simp add: min_def)
  with assms show ?thesis by simp
qed

lemma references_extended_trans:
  assumes "references_extended r1 r2" "references_extended r2 r3"
  shows "references_extended r1 r3"
  using assms take_prefix_trans[of "referenced_in_artifacts r1" "referenced_in_artifacts r2"
      "referenced_in_artifacts r3"]
  unfolding references_extended_def by auto

lemma map_of_dict_setdefault:
  "map_of d k = Some r \<Longrightarrow> map_of (dict_setdefault k' v d) k = Some r"
  by (auto simp: dict_setdefault_def map_add_def split: option.splits)

lemma take_append_unique: "take (length xs) (append_unique x xs) = xs"
  by (simp add: append_unique_def)

lemma github_match_extends:
  assumes "map_of (repositories_found st) k = Some r"
  shows "\<exists>r'. map_of (repositories_found (github_match a p m st)) k = Some r' \<and>
              references_extended r r'"
proof (cases "2 \<le> length (groups m)")
  case False
  with assms show ?thesis by (simp add: github_match_def references_extended_refl)
next
  case True
  let ?key = "make_repo_key (groups m ! 0) (clean_repo (groups m ! 1))"
  let ?f = "\<lambda>ri. ri\<lparr>referenced_in_artifacts := append_unique a (referenced_in_artifacts ri),
                     referenced_in_packs := insert p (referenced_in_packs ri),
                     full_urls_found := insert (group0 m) (full_urls_found ri)\<rparr>"
  have look: "map_of (repositories_found (github_match a p m st)) k =
              (if k = ?key then Some (?f r) else Some r)"
    using True assms
    by (auto simp: github_match_def Let_def map_of_dict_modify map_of_dict_setdefault)
  have "references_extended r (?f r)"
    by (auto simp: references_extended_def take_append_unique)
  with look show ?thesis
    by (auto simp: references_extended_refl)
qed

lemma fold_github_match_extends:
  "map_of (repositories_found st) k = Some r \<Longrightarrow>
   \<exists>r'. map_of (repositories_found (fold (github_match a p) ms st)) k = Some r' \<and>
        references_extended r r'"
proof (induction ms arbitrary: st r)
  case Nil
  then show ?case by (simp add: references_extended_refl)
next
  case (Cons m ms)
  from github_match_extends[OF Cons.prems, of a p m]
  obtain r1 where r1: "map_of (repositories_found (github_match a p m st)) k = Some r1"
    "references_extended r r1" by blast
  from Cons.IH[OF r1(1)]
  obtain r2 where "map_of (repositories_found (fold (github_match a p) ms (github_match a p m st))) k = Some r2"
    "references_extended r1 r2" by blast
  with r1(2) show ?case
    by (auto intro: references_extended_trans)
qed

lemma fold_patterns_github_extends:
  "map_of (repositories_found st) k = Some r \<Longrightarrow>
   \<exists>r'. map_of (repositories_found
           (fold (\<lambda>pattern. fold (github_match a p) (re_finditer True pattern body)) pats st)) k = Some r' \<and>
        references_extended r r'"
proof (induction pats arbitrary: st r)
  case Nil
  then show ?case by (simp add: references_extended_refl)
next
  case (Cons pat pats)
  from fold_github_match_extends[OF Cons.prems, of a p "re_finditer True pat body"]
  obtain r1 where r1: "map_of (repositories_found (fold (github_match a p) (re_finditer True pat body) st)) k = Some r1"
    "references_extended r r1" by blast
  from Cons.IH[OF r1(1)] r1(2) show ?case
    by (auto intro: references_extended_trans)
qed

lemma rstrip_plain:
  assumes "repo = [] \<or> last repo \<notin> set chars" "set punct \<subseteq> set chars"
  shows "rstrip chars (repo @ punct) = repo"
proof -
  have "dropWhile (\<lambda>x. x \<in> set chars) (rev punct @ rev repo) =
        dropWhile (\<lambda>x. x \<in> set chars) (rev repo)"
    using assms(2) by (intro dropWhile_append2) auto
  moreover have "dropWhile (\<lambda>x. x \<in> set chars) (rev repo) = rev repo"
    using assms(1) by (cases "rev repo") (auto simp: last_rev[symmetric] simp del: last_rev)
  ultimately show ?thesis by (simp add: rstrip_def)
qed

lemma split_first_absent: "c \<notin> set xs \<Longrightarrow> split_first c xs = xs"
  by (auto simp: split_first_def takeWhile_eq_all_conv)

lemma clean_repo_decorated:
  assumes "plain_name repo" "decoration d"
  shows "clean_repo (repo @ d) = repo"
proof -
  let ?P = "\<lambda>c. c \<in> set ''.,;)''"
  let ?punct = "takeWhile ?P d" and ?tail = "dropWhile ?P d"
  have d: "d = ?punct @ ?tail" by simp
  have punct: "set ?punct \<subseteq> set ''.,;)''"
    by (auto dest: set_takeWhileD)
  have noq: "\<And>x. x \<in> set (repo @ ?punct) \<Longrightarrow> x \<noteq> CHR ''?''"
    and noh: "\<And>x. x \<in> set (repo @ ?punct) \<Longrightarrow> x \<noteq> CHR ''#''"
    using assms(1) punct by (auto simp: plain_name_def)
  have "split_first CHR ''#'' (split_first CHR ''?'' (repo @ d)) = repo @ ?punct"
  proof (cases ?tail)
    case Nil
    then have e: "repo @ d = repo @ ?punct" using d by (metis append_Nil2)
    from noq noh have nq: "CHR ''?'' \<notin> set (repo @ ?punct)"
      and nh: "CHR ''#'' \<notin> set (repo @ ?punct)"
      by blast+
    have "split_first CHR ''?'' (repo @ ?punct) = repo @ ?punct"
      "split_first CHR ''#'' (repo @ ?punct) = repo @ ?punct"
      by (rule split_first_absent[OF nq], rule split_first_absent[OF nh])
    then show ?thesis
      unfolding e by (simp only:)
  next
    case (Cons c rest)
    with assms(2) have c: "c = CHR ''?'' \<or> c = CHR ''#''"
      by (simp add: decoration_def)
    have eq: "repo @ d = (repo @ ?punct) @ c # rest"
      using d Cons by (metis append.assoc)
    have 1: "split_first CHR ''?'' (repo @ d) = (repo @ ?punct) @ takeWhile (\<lambda>x. x \<noteq> CHR ''?'') (c # rest)"
      unfolding eq split_first_def using noq by (intro takeWhile_append2) blast
    show ?thesis
    proof (cases "c = CHR ''?''")
      case True
      with 1 have "split_first CHR ''?'' (repo @ d) = repo @ ?punct" by simp
      moreover from noh have "CHR ''#'' \<notin> set (repo @ ?punct)" by blast
      then have "split_first CHR ''#'' (repo @ ?punct) = repo @ ?punct"
        by (rule split_first_absent)
      ultimately show ?thesis
        by (simp only:)
    next
      case False
      with c have h: "c = CHR ''#''" by simp
      with 1 have "split_first CHR ''?'' (repo @ d) =
          (repo @ ?punct) @ CHR ''#'' # takeWhile (\<lambda>x. x \<noteq> CHR ''?'') rest"
        by simp
      moreover have "takeWhile (\<lambda>x. x \<noteq> CHR ''#'')
           ((repo @ ?punct) @ CHR ''#'' # takeWhile (\<lambda>x. x \<noteq> CHR ''?'') rest) =
           (repo @ ?punct) @ takeWhile (\<lambda>x. x \<noteq> CHR ''#'') (CHR ''#'' # takeWhile (\<lambda>x. x \<noteq> CHR ''?'') rest)"
        using noh by (intro takeWhile_append2) blast
      ultimately show ?thesis by (simp add: split_first_def)
    qed
  qed
  moreover have "rstrip ''.,;)'' (repo @ ?punct) = repo"
    using assms(1) punct by (intro rstrip_plain) (auto simp: plain_name_def)
  ultimately show ?thesis by (simp add: clean_repo_def)
qed

lemma github_match_key:
  assumes "groups m = [org, g]"
  shows "map fst (repositories_found (github_match a p m st)) =
           (if make_repo_key org (clean_repo g) \<in> set (map fst (repositories_found st))
            then map fst (repositories_found st)
            else map fst (repositories_found st) @ [make_repo_key org (clean_repo g)])"
    and "\<exists>ri. map_of (repositories_found (github_match a p m st)) (make_repo_key org (clean_repo g)) = Some ri \<and>
              group0 m \<in> full_urls_found ri \<and> a \<in> set (referenced_in_artifacts ri) \<and>
              (\<forall>u. (\<exists>r0. map_of (repositories_found st) (make_repo_key org (clean_repo g)) = Some r0 \<and>
                     u \<in> full_urls_found r0) \<longrightarrow> u \<in> full_urls_found ri) \<and>
              (make_repo_key org (clean_repo g) \<notin> set (map fst (repositories_found st)) \<longrightarrow>
                 organization ri = org \<and> repository_name ri = clean_repo g)"
proof -
  let ?k = "make_repo_key org (clean_repo g)"
  show "map fst (repositories_found (github_match a p m st)) =
           (if ?k \<in> set (map fst (repositories_found st))
            then map fst (repositories_found st)
            else map fst (repositories_found st) @ [?k])"
    using assms by (simp add: github_match_def Let_def map_fst_dict_modify dict_setdefault_def)
  show "\<exists>ri. map_of (repositories_found (github_match a p m st)) ?k = Some ri \<and>
              group0 m \<in> full_urls_found ri \<and> a \<in> set (referenced_in_artifacts ri) \<and>
              (\<forall>u. (\<exists>r0. map_of (repositories_found st) ?k = Some r0 \<and>
                     u \<in> full_urls_found r0) \<longrightarrow> u \<in> full_urls_found ri) \<and>
              (?k \<notin> set (map fst (repositories_found st)) \<longrightarrow>
                 organization ri = org \<and> repository_name ri = clean_repo g)"
  proof (cases "map_of (repositories_found st) ?k")
    case None
    then have notin: "?k \<notin> set (map fst (repositories_found st))"
      by (simp add: map_of_eq_None_iff)
    then have "map_of (dict_setdefault ?k (new_repo_info org (clean_repo g)) (repositories_found st)) ?k =
               Some (new_repo_info org (clean_repo g))"
      using None by (simp add: dict_setdefault_def map_add_def)
    with assms None show ?thesis
      by (simp add: github_match_def Let_def map_of_dict_modify new_repo_info_def append_unique_def)
  next
    case (Some r0)
    then have isin: "?k \<in> set (map fst (repositories_found st))"
      by (metis map_of_eq_None_iff option.distinct(1) set_map)
    from Some have "map_of (dict_setdefault ?k (new_repo_info org (clean_repo g)) (repositories_found st)) ?k =
               Some r0"
      by (rule map_of_dict_setdefault)
    with assms Some isin show ?thesis
      by (auto simp: github_match_def Let_def map_of_dict_modify append_unique_def)
  qed
qed

section \<open>Missing and broken packs\<close>

lemma post_process_initial: "snd (post_process_analysis initial_results) = initial_results"
  by (simp add: post_process_analysis_def prioritize_fork_candidates_def enrich_repository_info_def
        initial_results_def sort_descending_def)

lemma analyze_artifact_pack_failed:
  "extraction (snd pack) = None \<Longrightarrow> analyze_artifact_pack pack st = ([FailedToExtract (fst pack)], st)"
  by (simp add: analyze_artifact_pack_def)

lemma analyze_pack_files_failed:
  "extraction p = None \<Longrightarrow>
   analyze_pack_files ((n, p) # packs) st =
     (Analyzing n # FailedToExtract n # fst (analyze_pack_files packs st),
      snd (analyze_pack_files packs st))"
  by (simp add: analyze_artifact_pack_failed Let_def)

lemma find_packs_eq:
  "find_packs dir =
     (case dir ''artifact_pack.zip'' of None \<Rightarrow> [] | Some p \<Rightarrow> [(''artifact_pack.zip'', p)]) @
     (case dir ''artifact_pack_v2.zip'' of None \<Rightarrow> [] | Some p \<Rightarrow> [(''artifact_pack_v2.zip'', p)])"
  by (simp add: find_packs_def pack_names_def)

lemma failed_pack_like_missing:
  assumes "n \<in> set pack_names" "dir n = Some p" "extraction p = None"
  shows "snd (analyze_all_packs dir) = snd (analyze_all_packs (dir(n := None)))"
proof -
  from assms(1) consider "n = ''artifact_pack.zip''" | "n = ''artifact_pack_v2.zip''"
    by (auto simp: pack_names_def)
  then show ?thesis
  proof cases
    case 1
    show ?thesis
    proof (cases "dir ''artifact_pack_v2.zip''")
      case None
      with 1 assms(2,3) show ?thesis
        by (simp add: analyze_all_packs_def find_packs_eq analyze_artifact_pack_failed Let_def
              post_process_initial)
    next
      case (Some q)
      with 1 assms(2,3) show ?thesis
        by (simp add: analyze_all_packs_def find_packs_eq analyze_artifact_pack_failed Let_def)
    qed
  next
    case 2
    show ?thesis
    proof (cases "dir ''artifact_pack.zip''")
      case None
      with 2 assms(2,3) show ?thesis
        by (simp add: analyze_all_packs_def find_packs_eq analyze_artifact_pack_failed Let_def
              post_process_initial)
    next
      case (Some q)
      with 2 assms(2,3) show ?thesis
        by (simp add: analyze_all_packs_def find_packs_eq analyze_artifact_pack_failed Let_def)
    qed
  qed
qed

lemma failed_pack_reported:
  assumes "n \<in> set pack_names" "dir n = Some p" "extraction p = None"
  shows "FailedToExtract n \<in> set (fst (analyze_all_packs dir))"
proof -
  from assms(1) consider "n = ''artifact_pack.zip''" | "n = ''artifact_pack_v2.zip''"
    by (auto simp: pack_names_def)
  then show ?thesis
  proof cases
    case 1
    with assms(2,3) show ?thesis
      by (cases "dir ''artifact_pack_v2.zip''")
         (simp_all add: analyze_all_packs_def find_packs_eq analyze_artifact_pack_failed Let_def)
  next
    case 2
    with assms(2,3) show ?thesis
      by (cases "dir ''artifact_pack.zip''")
         (simp_all add: analyze_all_packs_def find_packs_eq analyze_artifact_pack_failed Let_def)
  qed
qed

lemma missing_pack_reported:
  assumes "n \<in> set pack_names" "dir n = None"
  shows "Missing n \<in> set (fst (analyze_all_packs dir))"
  using assms
  by (auto simp: analyze_all_packs_def find_messages_def pack_names_def Let_def)

lemma missing_first_pack:
  assumes "dir ''artifact_pack.zip'' = None" "dir ''artifact_pack_v2.zip'' = Some p"
  shows "analyze_all_packs dir =
     (Starting # Missing ''artifact_pack.zip'' # Found ''artifact_pack_v2.zip'' #
        fst (analyze_pack_files [(''artifact_pack_v2.zip'', p)] initial_results) @
        fst (post_process_analysis (snd (analyze_pack_files [(''artifact_pack_v2.zip'', p)] initial_results))),
      snd (post_process_analysis (snd (analyze_pack_files [(''artifact_pack_v2.zip'', p)] initial_results))))"
  using assms
  by (simp add: analyze_all_packs_def find_packs_eq find_messages_def pack_names_def Let_def)

lemma missing_second_pack:
  assumes "dir ''artifact_pack_v2.zip'' = None" "dir ''artifact_pack.zip'' = Some p"
  shows "analyze_all_packs dir =
     (Starting # Found ''artifact_pack.zip'' # Missing ''artifact_pack_v2.zip'' #
        fst (analyze_pack_files [(''artifact_pack.zip'', p)] initial_results) @
        fst (post_process_analysis (snd (analyze_pack_files [(''artifact_pack.zip'', p)] initial_results))),
      snd (post_process_analysis (snd (analyze_pack_files [(''artifact_pack.zip'', p)] initial_results))))"
  using assms
  by (simp add: analyze_all_packs_def find_packs_eq find_messages_def pack_names_def Let_def)

section \<open>What a pass records\<close>


lemma map_of_dict_setdefault_other:
  "k' \<noteq> k \<Longrightarrow> map_of (dict_setdefault k v d) k' = map_of d k'"
  by (auto simp: dict_setdefault_def map_add_def split: option.splits)




subsection \<open>References once made stay\<close>









subsection \<open>Every hit is recorded under the name of the document\<close>














section \<open>An executable in a nested query\<close>

subsection \<open>A match does not run over a character that the pattern rejects\<close>




subsection \<open>The first pattern finds the executable at the end of the path\<close>








subsection \<open>The token is recorded and stays\<close>




















section \<open>Concrete runs\<close>

text \<open>The three concrete directories, run inside the logic.\<close>

lemma two_repo_run:
  "map (\<lambda>kv. (fst kv, priority_score (snd kv), fork_recommended (snd kv)))
     (repositories_found (snd (analyze_all_packs two_repo_directory))) =
     [(''a/b'', Some 10, Some False), (''google/c'', Some 40, Some True)] \<and>
   map (fork_candidates (snd (analyze_all_packs two_repo_directory)))
     [high_priority, medium_priority, low_priority] = [[], [''google/c''], [''a/b'']]"
  by code_simp

lemma two_repo_keys:
  "map fst (repositories_found (snd (analyze_all_packs two_repo_directory))) =
     [''a/b'', ''google/c'']"
proof -
  have "map fst (map (\<lambda>kv. (fst kv, priority_score (snd kv), fork_recommended (snd kv)))
          (repositories_found (snd (analyze_all_packs two_repo_directory)))) =
        map fst [(''a/b'', Some 10, Some False), (''google/c'', Some 40, Some True)]"
    using two_repo_run by simp
  then show ?thesis by (simp add: comp_def)
qed

lemma two_repo_entry:
  "\<exists>r. (''google/c'', r) \<in> set (repositories_found (snd (analyze_all_packs two_repo_directory)))"
proof -
  have "''google/c'' \<in> set (map fst (repositories_found (snd (analyze_all_packs two_repo_directory))))"
    unfolding two_repo_keys by simp
  then show ?thesis by auto
qed

lemma twice_run:
  "map (\<lambda>kv. (fst kv, referenced_in_artifacts (snd kv)))
     (repositories_found (snd (analyze_pack_files
        [(''artifact_pack.zip'', two_repo_pack), (''artifact_pack.zip'', two_repo_pack)]
        initial_results))) =
   [(''a/b'', [YStr ''doc'']), (''google/c'', [YStr ''doc''])]"
  by code_simp

lemma sigma_tool_state_tier:
  "map_option priority (map_of (repositories_found sigma_tool_state) ''SigmaHQ/sigma'') =
     Some ''critical''"
  by code_simp

lemma decorated_matches:
  "re_finditer True (hd github_patterns) decorated_text =
     [\<lparr>group0 = ''https://github.com/SigmaHQ/sigma?tab=readme'',
       groups = [''SigmaHQ'', ''sigma?tab=readme'']\<rparr>,
      \<lparr>group0 = ''https://github.com/SigmaHQ/sigma.'',
       groups = [''SigmaHQ'', ''sigma.'']\<rparr>]"
  by code_simp





lemma failing_directory_keys:
  "map fst (repositories_found (snd (analyze_all_packs failing_directory))) =
     [''a/b'', ''google/c'']"
  by code_simp



section \<open>The claims\<close>

text \<open>
  C1. The scenario is one pack with one document whose text holds the link
  \<open>https://github.com/SigmaHQ/sigma/blob/master/rules/x.yml\<close> and the word sigma. The
  registry ends with one record, keyed \<open>SigmaHQ/sigma\<close>, of tier critical, referenced by
  the one document; the tool \<open>sigma\<close> is found. The repository pass runs first and
  creates the record without the key \<open>tool_name\<close>, which the tool pass never adds to a
  record that exists; and the scorer adds no tier bonus. So the record has no tool
  association, its score is 30 (10 for the document and 20 for the organization), and it
  is in the low-priority bucket.
\<close>

theorem sigma_scenario_scores_30:
  "map (\<lambda>kv. (fst kv, tool_name (snd kv), priority (snd kv), priority_score (snd kv),
               priority_category (snd kv), referenced_in_artifacts (snd kv)))
     (repositories_found (snd (analyze_all_packs sigma_directory))) =
     [(''SigmaHQ/sigma'', None, ''critical'', Some 30, Some low_priority, [YStr ''doc''])] \<and>
   map (fork_candidates (snd (analyze_all_packs sigma_directory)))
     [high_priority, medium_priority, low_priority] = [[], [], [''SigmaHQ/sigma'']] \<and>
   map fst (tools_found (snd (analyze_all_packs sigma_directory))) = [''sigma'']"
  by code_simp

text \<open>
  C2. The scorer guards the tier bonus with \<open>hasattr(repo_info, 'tool_name')\<close>, and a
  dictionary has no attribute of that name: the bonus is 0 for every record, and the
  score is the sum of the other three factors. For the record that the tool pass creates
  for hayabusa (tool association \<open>hayabusa\<close>, tier critical) the score is 30, where the
  bonus of 100 would make it 130.
\<close>

theorem tier_bonus_is_never_added:
  "(\<forall>ri. tier_bonus ri = 0 \<and>
         score_of ri = artifact_count ri * 10 + org_bonus ri + keyword_bonus ri) \<and>
   map (\<lambda>kv. (fst kv, tool_name (snd kv), priority (snd kv), priority_score (snd kv),
               priority_category (snd kv)))
     (repositories_found (snd (analyze_all_packs hayabusa_directory))) =
     [(''Yamato-Security/hayabusa'', Some ''hayabusa'', ''critical'', Some 30, Some low_priority)]"
proof -
  have "\<not> dict_hasattr ''tool_name''"
    by (simp add: dict_hasattr_def dict_attributes_def)
  then have "tier_bonus ri = 0" for ri
    by (simp add: tier_bonus_def)
  moreover have
    "map (\<lambda>kv. (fst kv, tool_name (snd kv), priority (snd kv), priority_score (snd kv),
                 priority_category (snd kv)))
       (repositories_found (snd (analyze_all_packs hayabusa_directory))) =
     [(''Yamato-Security/hayabusa'', Some ''hayabusa'', ''critical'', Some 30, Some low_priority)]"
    by code_simp
  ultimately show ?thesis by (simp add: score_of_def)
qed

text \<open>
  C3. A sighting by the repository pass never changes the tier of a record that the
  registry already holds, whoever set it: for every record \<open>r\<close> under a key \<open>k\<close>,
  after \<open>find_github_repositories\<close> on any text the registry holds under \<open>k\<close> a record
  with the priority of \<open>r\<close>, which differs from \<open>r\<close> in its reference containers only
  (the list of referencing documents is extended at its end, the set of packs and the set
  of matched links have grown).
\<close>

theorem url_sighting_keeps_tier:
  assumes "map_of (repositories_found st) k = Some r"
  shows "\<exists>r'. map_of (repositories_found (find_github_repositories body a p st)) k = Some r' \<and>
              priority r' = priority r \<and> references_extended r r'"
proof -
  from fold_patterns_github_extends[OF assms, of a p body github_patterns]
  obtain r' where r': "map_of (repositories_found (find_github_repositories body a p st)) k = Some r'"
    "references_extended r r'"
    unfolding find_github_repositories_def by blast
  from r'(2) have "priority r' = priority r"
    by (simp add: references_extended_def)
  with r' show ?thesis by blast
qed

theorem url_sighting_keeps_tier_witness:
  "map_option priority (map_of (repositories_found sigma_tool_state) ''SigmaHQ/sigma'') =
     Some ''critical'' \<and>
   map_option priority
     (map_of (repositories_found
        (find_github_repositories ''https://github.com/SigmaHQ/sigma'' (YStr ''second'')
           ''artifact_pack.zip'' sigma_tool_state)) ''SigmaHQ/sigma'') = Some ''critical''"
proof -
  from sigma_tool_state_tier obtain r where
    r: "map_of (repositories_found sigma_tool_state) ''SigmaHQ/sigma'' = Some r"
    "priority r = ''critical''"
    by auto
  from url_sighting_keeps_tier[OF r(1), of "''https://github.com/SigmaHQ/sigma''"
      "YStr ''second''" "''artifact_pack.zip''"] r(2) sigma_tool_state_tier
  show ?thesis by auto
qed

text \<open>
  C4. After scoring, every repository record of the registry is in exactly one of the
  three buckets: in the high bucket when its score is at least 80, in the medium bucket
  when the score is at least 40 and below 80, in the low bucket otherwise. A bucket holds
  no record twice and only records of the registry, it is sorted by descending score, and
  the records of one score stand in it in the order of the registry (the sort is stable).
  This holds for the state that \<open>analyze_all_packs\<close> returns, for every directory.
\<close>

theorem buckets_partition_sorted_stable:
  fixes dir
  defines "st \<equiv> snd (analyze_all_packs dir)"
  shows "(\<forall>kv \<in> set (repositories_found st).
            priority_score (snd kv) = Some (score_at st (fst kv)) \<and>
            (fst kv \<in> set (fork_candidates st high_priority)) = (80 \<le> score_at st (fst kv)) \<and>
            (fst kv \<in> set (fork_candidates st medium_priority)) =
               (40 \<le> score_at st (fst kv) \<and> score_at st (fst kv) < 80) \<and>
            (fst kv \<in> set (fork_candidates st low_priority)) = (score_at st (fst kv) < 40)) \<and>
         (\<forall>c. distinct (fork_candidates st c) \<and>
              set (fork_candidates st c) \<subseteq> fst ` set (repositories_found st) \<and>
              sorted_wrt (\<lambda>a b. score_at st a \<ge> score_at st b) (fork_candidates st c) \<and>
              (\<forall>v. filter (\<lambda>k. score_at st k = v) (fork_candidates st c) =
                   filter (\<lambda>k. score_at st k = v \<and> category_of v = c)
                     (map fst (repositories_found st))))"
proof -
  from run_cases[of dir]
  consider "st = initial_results"
    | st0 where "registry_ready st0" "st = snd (post_process_analysis st0)"
    unfolding st_def by blast
  then show ?thesis
  proof cases
    case 1
    then show ?thesis by (simp add: initial_results_def)
  next
    case 2
    note rdy = 2(1)
    have rec: "priority_score r = Some (score_at st k) \<and>
               (k \<in> set (fork_candidates st high_priority)) = (80 \<le> score_at st k) \<and>
               (k \<in> set (fork_candidates st medium_priority)) = (40 \<le> score_at st k \<and> score_at st k < 80) \<and>
               (k \<in> set (fork_candidates st low_priority)) = (score_at st k < 40)"
      if "(k, r) \<in> set (repositories_found st)" for k r
    proof -
      from post_process_record[OF rdy] that
      obtain r0 where r0: "(k, r0) \<in> set (repositories_found st0)" "r = enriched r0"
        "score_at st k = score_of r0"
        unfolding 2(2) by blast
      show ?thesis
        unfolding 2(2) post_process_member[OF rdy r0(1)] r0(3)[unfolded 2(2)] category_of_cases
        by (simp add: r0(2) enriched_def)
    qed
    have keys: "fst ` set (repositories_found st) = fst ` set (repositories_found st0)"
      unfolding 2(2) post_process_registry[OF rdy] by (simp add: image_image)
    have mapfst: "map fst (repositories_found st) = map fst (repositories_found st0)"
      unfolding 2(2) post_process_registry[OF rdy] by (simp add: comp_def)
    have sub: "set (fork_candidates st c) \<subseteq> fst ` set (repositories_found st)" for c
      unfolding keys unfolding 2(2) post_process_bucket_set[OF rdy] by force
    show ?thesis
    proof (intro conjI ballI allI)
      fix kv assume "kv \<in> set (repositories_found st)"
      then have "(fst kv, snd kv) \<in> set (repositories_found st)" by simp
      from rec[OF this]
      show "priority_score (snd kv) = Some (score_at st (fst kv))"
        "(fst kv \<in> set (fork_candidates st high_priority)) = (80 \<le> score_at st (fst kv))"
        "(fst kv \<in> set (fork_candidates st medium_priority)) =
               (40 \<le> score_at st (fst kv) \<and> score_at st (fst kv) < 80)"
        "(fst kv \<in> set (fork_candidates st low_priority)) = (score_at st (fst kv) < 40)"
        by blast+
    next
      fix c show "distinct (fork_candidates st c)"
        unfolding 2(2) by (rule post_process_bucket_distinct[OF rdy])
    next
      fix c show "set (fork_candidates st c) \<subseteq> fst ` set (repositories_found st)" by (rule sub)
    next
      fix c show "sorted_wrt (\<lambda>a b. score_at st a \<ge> score_at st b) (fork_candidates st c)"
        unfolding 2(2) by (rule post_process_bucket_sorted[OF rdy])
    next
      fix c v
      show "filter (\<lambda>k. score_at st k = v) (fork_candidates st c) =
            filter (\<lambda>k. score_at st k = v \<and> category_of v = c) (map fst (repositories_found st))"
        unfolding mapfst unfolding 2(2) by (rule post_process_bucket_stable[OF rdy])
    qed
  qed
qed

theorem buckets_partition_sorted_stable_witness:
  "(''google/c'' \<in> set (fork_candidates (snd (analyze_all_packs two_repo_directory)) medium_priority)) =
     (40 \<le> score_at (snd (analyze_all_packs two_repo_directory)) ''google/c'' \<and>
      score_at (snd (analyze_all_packs two_repo_directory)) ''google/c'' < 80) \<and>
   ''google/c'' \<in> set (fork_candidates (snd (analyze_all_packs two_repo_directory)) medium_priority) \<and>
   ''google/c'' \<notin> set (fork_candidates (snd (analyze_all_packs two_repo_directory)) high_priority) \<and>
   ''google/c'' \<notin> set (fork_candidates (snd (analyze_all_packs two_repo_directory)) low_priority)"
proof -
  from two_repo_entry obtain r where
    "(''google/c'', r) \<in> set (repositories_found (snd (analyze_all_packs two_repo_directory)))" ..
  with buckets_partition_sorted_stable[of two_repo_directory]
  have "(''google/c'' \<in> set (fork_candidates (snd (analyze_all_packs two_repo_directory)) medium_priority)) =
     (40 \<le> score_at (snd (analyze_all_packs two_repo_directory)) ''google/c'' \<and>
      score_at (snd (analyze_all_packs two_repo_directory)) ''google/c'' < 80)"
    by fastforce
  with two_repo_run show ?thesis by simp
qed

text \<open>
  C5. No referencing-document list ever holds a name twice, for repositories, tools and
  dependencies alike: from a state whose lists are free of duplicates, analysing any
  sequence of packs (the same pack twice, documents that match many patterns) gives such
  a state again, and so does the whole run. The document count that the scorer uses is
  then the number of distinct document names of the record.
\<close>

theorem referencing_documents_listed_once:
  "(unique_refs st \<longrightarrow>
      unique_refs (snd (analyze_pack_files packs st)) \<and>
      (\<forall>kv \<in> set (repositories_found (snd (analyze_pack_files packs st))).
         artifact_count (snd kv) = int (card (set (referenced_in_artifacts (snd kv)))))) \<and>
   unique_refs (snd (analyze_all_packs dir))"
proof (intro conjI impI)
  assume u: "unique_refs st"
  show u': "unique_refs (snd (analyze_pack_files packs st))"
    by (rule analyze_pack_files_preserves[OF unique_refs_preserved u])
  show "\<forall>kv \<in> set (repositories_found (snd (analyze_pack_files packs st))).
         artifact_count (snd kv) = int (card (set (referenced_in_artifacts (snd kv))))"
    using u' by (simp add: unique_refs_def artifact_count_def distinct_card)
next
  have r: "registry_ready (snd (analyze_pack_files (find_packs dir) initial_results))"
    by (rule registry_ready_packs)
  have u: "unique_refs (snd (analyze_pack_files (find_packs dir) initial_results))"
    by (rule analyze_pack_files_preserves[OF unique_refs_preserved unique_refs_initial])
  show "unique_refs (snd (analyze_all_packs dir))"
    using unique_refs_post_process[OF u r] unique_refs_initial
    by (simp add: analyze_all_packs_def Let_def)
qed

theorem referencing_documents_listed_once_witness:
  "unique_refs initial_results \<and>
   unique_refs (snd (analyze_pack_files
        [(''artifact_pack.zip'', two_repo_pack), (''artifact_pack.zip'', two_repo_pack)]
        initial_results)) \<and>
   map (\<lambda>kv. (fst kv, referenced_in_artifacts (snd kv)))
     (repositories_found (snd (analyze_pack_files
        [(''artifact_pack.zip'', two_repo_pack), (''artifact_pack.zip'', two_repo_pack)]
        initial_results))) =
   [(''a/b'', [YStr ''doc'']), (''google/c'', [YStr ''doc''])]"
  using referencing_documents_listed_once[of initial_results
      "[(''artifact_pack.zip'', two_repo_pack), (''artifact_pack.zip'', two_repo_pack)]"]
    unique_refs_initial twice_run
  by simp






text \<open>
  C8, as the claim words it, fails: the program strips the four characters \<open>. , ; )\<close>
  from the end of a name and no other punctuation. A link in double quotes keeps the
  closing quote in the name, so the quoted link and the bare link to one repository get
  two registry keys.
\<close>

theorem quoted_link_gets_its_own_key:
  "map fst (repositories_found
      (find_github_repositories quoted_text (YStr ''doc'') ''artifact_pack.zip'' initial_results)) =
     [''SigmaHQ/sigma'' @ [CHR 0x22], ''SigmaHQ/sigma''] \<and>
   clean_repo (''sigma'' @ [CHR 0x22]) = ''sigma'' @ [CHR 0x22]"
  by code_simp

text \<open>
  C8, amended. For a match with the two groups \<open>org\<close> and \<open>repo @ d\<close>, where \<open>repo\<close> is
  a plain name and \<open>d\<close> a decoration (a run of the characters \<open>. , ; )\<close>, then nothing or
  a query string or a fragment), the cleaned repository name is \<open>repo\<close>. Two such matches
  for one \<open>org\<close> and \<open>repo\<close> with different decorations go to the same registry key
  \<open>org/repo\<close>: the second adds no key, the one record holds both links, and when the key
  is new the record carries \<open>org\<close> and \<open>repo\<close> as its organization and name.
\<close>

theorem decorated_urls_share_one_key:
  assumes "plain_name repo" "decoration d1" "decoration d2"
    and "groups m1 = [org, repo @ d1]" "groups m2 = [org, repo @ d2]"
  shows "clean_repo (repo @ d1) = repo \<and> clean_repo (repo @ d2) = repo \<and>
         make_repo_key org repo \<in> set (map fst (repositories_found (github_match a1 p1 m1 st))) \<and>
         map fst (repositories_found (github_match a2 p2 m2 (github_match a1 p1 m1 st))) =
           map fst (repositories_found (github_match a1 p1 m1 st)) \<and>
         (\<exists>ri. map_of (repositories_found (github_match a2 p2 m2 (github_match a1 p1 m1 st)))
                 (make_repo_key org repo) = Some ri \<and>
               group0 m1 \<in> full_urls_found ri \<and> group0 m2 \<in> full_urls_found ri \<and>
               (make_repo_key org repo \<notin> set (map fst (repositories_found st)) \<longrightarrow>
                  organization ri = org \<and> repository_name ri = repo))"
proof -
  let ?k = "make_repo_key org repo"
  let ?st1 = "github_match a1 p1 m1 st"
  let ?st2 = "github_match a2 p2 m2 ?st1"
  have c1: "clean_repo (repo @ d1) = repo" and c2: "clean_repo (repo @ d2) = repo"
    using assms(1-3) by (simp_all add: clean_repo_decorated)
  have k1: "?k \<in> set (map fst (repositories_found ?st1))"
    using github_match_key(1)[OF assms(4), of a1 p1 st] c1 by (simp split: if_splits)
  have keys: "map fst (repositories_found ?st2) = map fst (repositories_found ?st1)"
    using github_match_key(1)[OF assms(5), of a2 p2 ?st1] c2 k1 by simp
  from github_match_key(2)[OF assms(4), of a1 p1 st] c1
  obtain r1 where r1: "map_of (repositories_found ?st1) ?k = Some r1"
    "group0 m1 \<in> full_urls_found r1"
    "?k \<notin> set (map fst (repositories_found st)) \<longrightarrow> organization r1 = org \<and> repository_name r1 = repo"
    by auto
  have ext: "references_extended r1 r2" if "map_of (repositories_found ?st2) ?k = Some r2" for r2
    using github_match_extends[OF r1(1), of a2 p2 m2] that by simp
  from github_match_key(2)[OF assms(5), of a2 p2 ?st1] c2
  obtain r2 where r2: "map_of (repositories_found ?st2) ?k = Some r2"
    "group0 m2 \<in> full_urls_found r2"
    by auto
  from ext[OF r2(1)] r1(2,3) have "group0 m1 \<in> full_urls_found r2"
    "?k \<notin> set (map fst (repositories_found st)) \<longrightarrow> organization r2 = org \<and> repository_name r2 = repo"
    by (auto simp: references_extended_def)
  with c1 c2 k1 keys r2 show ?thesis by blast
qed

theorem decorated_urls_share_one_key_witness:
  "plain_name ''sigma'' \<and> decoration ''?tab=readme'' \<and> decoration ''.'' \<and>
   map groups (re_finditer True (hd github_patterns) decorated_text) =
     [[''SigmaHQ'', ''sigma'' @ ''?tab=readme''], [''SigmaHQ'', ''sigma'' @ ''.'']] \<and>
   clean_repo (''sigma'' @ ''?tab=readme'') = ''sigma'' \<and> clean_repo (''sigma'' @ ''.'') = ''sigma'' \<and>
   map fst (repositories_found
     (fold (github_match (YStr ''doc'') ''artifact_pack.zip'')
        (re_finditer True (hd github_patterns) decorated_text) initial_results)) =
     [''SigmaHQ/sigma'']"
proof -
  let ?m1 = "\<lparr>group0 = ''https://github.com/SigmaHQ/sigma?tab=readme'',
       groups = [''SigmaHQ'', ''sigma?tab=readme'']\<rparr>"
  let ?m2 = "\<lparr>group0 = ''https://github.com/SigmaHQ/sigma.'',
       groups = [''SigmaHQ'', ''sigma.'']\<rparr>"
  have p: "plain_name ''sigma''" and d1: "decoration ''?tab=readme''" and d2: "decoration ''.''"
    by (simp_all add: plain_name_def decoration_def)
  have g1: "groups ?m1 = [''SigmaHQ'', ''sigma'' @ ''?tab=readme'']"
    and g2: "groups ?m2 = [''SigmaHQ'', ''sigma'' @ ''.'']"
    by simp_all
  note t = decorated_urls_share_one_key[OF p d1 d2 g1 g2, of "YStr ''doc''" "''artifact_pack.zip''"
      initial_results "YStr ''doc''" "''artifact_pack.zip''"]
  from t have c1: "clean_repo (''sigma'' @ ''?tab=readme'') = ''sigma''"
    and c2: "clean_repo (''sigma'' @ ''.'') = ''sigma''"
    and keys: "map fst (repositories_found (github_match (YStr ''doc'') ''artifact_pack.zip'' ?m2
                 (github_match (YStr ''doc'') ''artifact_pack.zip'' ?m1 initial_results))) =
               map fst (repositories_found (github_match (YStr ''doc'') ''artifact_pack.zip'' ?m1
                 initial_results))"
    by blast+
  have k1: "map fst (repositories_found (github_match (YStr ''doc'') ''artifact_pack.zip'' ?m1 initial_results)) =
        [''SigmaHQ/sigma'']"
    unfolding github_match_key(1)[OF g1] c1
    by (simp add: initial_results_def make_repo_key_def)
  have fold_eq: "fold (github_match (YStr ''doc'') ''artifact_pack.zip'')
        (re_finditer True (hd github_patterns) decorated_text) initial_results =
      github_match (YStr ''doc'') ''artifact_pack.zip'' ?m2
        (github_match (YStr ''doc'') ''artifact_pack.zip'' ?m1 initial_results)"
    unfolding decorated_matches by simp
  have gs: "map groups (re_finditer True (hd github_patterns) decorated_text) =
     [[''SigmaHQ'', ''sigma'' @ ''?tab=readme''], [''SigmaHQ'', ''sigma'' @ ''.'']]"
    unfolding decorated_matches by simp
  show ?thesis
    unfolding fold_eq keys k1 using p d1 d2 gs c1 c2 by (intro conjI) simp_all
qed

text \<open>
  C9. A missing pack is reported and the run goes on: with one of the two packs missing
  the result is the post-processed analysis of the other one. A pack whose extraction
  fails is reported and leaves the analysis results as they were; the loop over the packs
  goes on with the rest from the unchanged state, and the result of the run is the result
  of the run without that pack.
\<close>

theorem missing_and_failed_packs_are_skipped:
  "(n \<in> set pack_names \<and> dir n = None \<longrightarrow> Missing n \<in> set (fst (analyze_all_packs dir))) \<and>
   (dir ''artifact_pack.zip'' = None \<and> dir ''artifact_pack_v2.zip'' = Some p \<longrightarrow>
      snd (analyze_all_packs dir) =
        snd (post_process_analysis
               (snd (analyze_pack_files [(''artifact_pack_v2.zip'', p)] initial_results)))) \<and>
   (dir ''artifact_pack_v2.zip'' = None \<and> dir ''artifact_pack.zip'' = Some p \<longrightarrow>
      snd (analyze_all_packs dir) =
        snd (post_process_analysis
               (snd (analyze_pack_files [(''artifact_pack.zip'', p)] initial_results)))) \<and>
   (extraction q = None \<longrightarrow>
      analyze_artifact_pack (m, q) st = ([FailedToExtract m], st) \<and>
      analyze_pack_files ((m, q) # packs) st =
        (Analyzing m # FailedToExtract m # fst (analyze_pack_files packs st),
         snd (analyze_pack_files packs st))) \<and>
   (n \<in> set pack_names \<and> dir n = Some q \<and> extraction q = None \<longrightarrow>
      FailedToExtract n \<in> set (fst (analyze_all_packs dir)) \<and>
      snd (analyze_all_packs dir) = snd (analyze_all_packs (dir(n := None))))"
  using missing_pack_reported[of n dir] missing_first_pack[of dir p] missing_second_pack[of dir p]
    analyze_artifact_pack_failed[of "(m, q)" st] analyze_pack_files_failed[of q m packs st]
    failed_pack_reported[of n dir q] failed_pack_like_missing[of n dir q]
  by simp

theorem missing_and_failed_packs_are_skipped_witness:
  "Missing ''artifact_pack_v2.zip'' \<in> set (fst (analyze_all_packs two_repo_directory)) \<and>
   snd (analyze_all_packs two_repo_directory) =
     snd (post_process_analysis
            (snd (analyze_pack_files [(''artifact_pack.zip'', two_repo_pack)] initial_results))) \<and>
   snd (analyze_all_packs (failing_directory(''artifact_pack.zip'' := None))) =
     snd (post_process_analysis
            (snd (analyze_pack_files [(''artifact_pack_v2.zip'', two_repo_pack)] initial_results))) \<and>
   analyze_artifact_pack (''artifact_pack.zip'', broken_pack) initial_results =
     ([FailedToExtract ''artifact_pack.zip''], initial_results) \<and>
   FailedToExtract ''artifact_pack.zip'' \<in> set (fst (analyze_all_packs failing_directory)) \<and>
   snd (analyze_all_packs failing_directory) =
     snd (analyze_all_packs (failing_directory(''artifact_pack.zip'' := None))) \<and>
   map fst (repositories_found (snd (analyze_all_packs failing_directory))) =
     [''a/b'', ''google/c'']"
proof -
  have names: "''artifact_pack.zip'' \<in> set pack_names" "''artifact_pack_v2.zip'' \<in> set pack_names"
    by (simp_all add: pack_names_def)
  have two: "two_repo_directory ''artifact_pack_v2.zip'' = None"
    "two_repo_directory ''artifact_pack.zip'' = Some two_repo_pack"
    by (simp_all add: two_repo_directory_def)
  have failing: "failing_directory ''artifact_pack.zip'' = Some broken_pack"
    "(failing_directory(''artifact_pack.zip'' := None)) ''artifact_pack.zip'' = None"
    "(failing_directory(''artifact_pack.zip'' := None)) ''artifact_pack_v2.zip'' = Some two_repo_pack"
    by (simp_all add: failing_directory_def)
  have broken: "extraction broken_pack = None"
    by (simp add: broken_pack_def)
  from missing_and_failed_packs_are_skipped[of "''artifact_pack_v2.zip''" two_repo_directory
      two_repo_pack broken_pack "''artifact_pack.zip''" initial_results "[]"] names two broken
  have a: "Missing ''artifact_pack_v2.zip'' \<in> set (fst (analyze_all_packs two_repo_directory))"
    "snd (analyze_all_packs two_repo_directory) =
     snd (post_process_analysis
            (snd (analyze_pack_files [(''artifact_pack.zip'', two_repo_pack)] initial_results)))"
    "analyze_artifact_pack (''artifact_pack.zip'', broken_pack) initial_results =
     ([FailedToExtract ''artifact_pack.zip''], initial_results)"
    by simp_all
  from missing_and_failed_packs_are_skipped[of "''artifact_pack.zip''"
      "failing_directory(''artifact_pack.zip'' := None)"
      two_repo_pack broken_pack "''artifact_pack.zip''" initial_results "[]"] failing
  have b: "snd (analyze_all_packs (failing_directory(''artifact_pack.zip'' := None))) =
     snd (post_process_analysis
            (snd (analyze_pack_files [(''artifact_pack_v2.zip'', two_repo_pack)] initial_results)))"
    by simp
  from missing_and_failed_packs_are_skipped[of "''artifact_pack.zip''" failing_directory
      two_repo_pack broken_pack "''artifact_pack.zip''" initial_results "[]"] names failing broken
  have c: "FailedToExtract ''artifact_pack.zip'' \<in> set (fst (analyze_all_packs failing_directory))"
    "snd (analyze_all_packs failing_directory) =
     snd (analyze_all_packs (failing_directory(''artifact_pack.zip'' := None)))"
    by simp_all
  from a b c failing_directory_keys show ?thesis by simp
qed

text \<open>
  C10. After post-processing, every repository record has the field
  \<open>fork_recommended\<close>, which is true exactly when the priority score of the record is at
  least 40: exactly when the record is in the high or in the medium bucket, and false
  exactly when it is in the low bucket.
\<close>

theorem fork_recommended_iff_bucket:
  fixes dir
  defines "st \<equiv> snd (analyze_all_packs dir)"
  shows "\<forall>kv \<in> set (repositories_found st).
           priority_score (snd kv) = Some (score_at st (fst kv)) \<and>
           fork_recommended (snd kv) = Some (40 \<le> score_at st (fst kv)) \<and>
           (fork_recommended (snd kv) = Some True) =
              (fst kv \<in> set (fork_candidates st high_priority) \<or>
               fst kv \<in> set (fork_candidates st medium_priority)) \<and>
           (fork_recommended (snd kv) = Some False) =
              (fst kv \<in> set (fork_candidates st low_priority))"
proof -
  from run_cases[of dir]
  consider "st = initial_results"
    | st0 where "registry_ready st0" "st = snd (post_process_analysis st0)"
    unfolding st_def by blast
  then show ?thesis
  proof cases
    case 1
    then show ?thesis by (simp add: initial_results_def)
  next
    case 2
    note rdy = 2(1)
    show ?thesis
    proof (intro ballI)
      fix kv assume "kv \<in> set (repositories_found st)"
      then have "(fst kv, snd kv) \<in> set (repositories_found st)" by simp
      with post_process_record[OF rdy]
      obtain r0 where r0: "(fst kv, r0) \<in> set (repositories_found st0)" "snd kv = enriched r0"
        "score_at st (fst kv) = score_of r0"
        unfolding 2(2) by blast
      have fr: "fork_recommended (snd kv) = Some (40 \<le> score_at st (fst kv))"
        and ps: "priority_score (snd kv) = Some (score_at st (fst kv))"
        by (simp_all add: r0(2,3) enriched_def)
      have m: "(fst kv \<in> set (fork_candidates st c)) = (category_of (score_at st (fst kv)) = c)" for c
        unfolding r0(3) unfolding 2(2) by (rule post_process_member[OF rdy r0(1)])
      show "priority_score (snd kv) = Some (score_at st (fst kv)) \<and>
           fork_recommended (snd kv) = Some (40 \<le> score_at st (fst kv)) \<and>
           (fork_recommended (snd kv) = Some True) =
              (fst kv \<in> set (fork_candidates st high_priority) \<or>
               fst kv \<in> set (fork_candidates st medium_priority)) \<and>
           (fork_recommended (snd kv) = Some False) =
              (fst kv \<in> set (fork_candidates st low_priority))"
        unfolding m category_of_cases fr ps by auto
    qed
  qed
qed

theorem fork_recommended_iff_bucket_witness:
  "fork_recommended (snd (hd (filter (\<lambda>kv. fst kv = ''google/c'')
       (repositories_found (snd (analyze_all_packs two_repo_directory)))))) =
     Some (40 \<le> score_at (snd (analyze_all_packs two_repo_directory)) ''google/c'') \<and>
   score_at (snd (analyze_all_packs two_repo_directory)) ''google/c'' = 40"
proof -
  let ?st = "snd (analyze_all_packs two_repo_directory)"
  let ?kv = "hd (filter (\<lambda>kv. fst kv = ''google/c'') (repositories_found ?st))"
  from two_repo_entry have ne: "filter (\<lambda>kv. fst kv = ''google/c'') (repositories_found ?st) \<noteq> []"
    by (force simp: filter_empty_conv)
  then have "?kv \<in> set (filter (\<lambda>kv. fst kv = ''google/c'') (repositories_found ?st))"
    by (rule hd_in_set)
  then have mem: "?kv \<in> set (repositories_found ?st)" and key: "fst ?kv = ''google/c''"
    by simp_all
  from fork_recommended_iff_bucket[of two_repo_directory] mem
  have "priority_score (snd ?kv) = Some (score_at ?st (fst ?kv)) \<and>
        fork_recommended (snd ?kv) = Some (40 \<le> score_at ?st (fst ?kv))"
    by blast
  then have a: "fork_recommended (snd ?kv) = Some (40 \<le> score_at ?st ''google/c'')"
    and b: "priority_score (snd ?kv) = Some (score_at ?st ''google/c'')"
    unfolding key by simp_all
  have "score_at ?st ''google/c'' = 40"
    by code_simp
  with a show ?thesis by simp
qed

end
